theory Spec2Isabelle
  imports Main "HOL-Library.Sublist"
begin

section \<open>Go runtime and standard library, as far as the verifier uses them\<close>

subsection \<open>Panics\<close>

text \<open>
  A slice index outside the slice aborts the goroutine with a run-time panic
  \<^verbatim>\<open>index out of range [i] with length n\<close>. The panic is a value of the
  model: a function that can panic returns \<open>panic + 'a\<close>.
\<close>

datatype panic = IndexOutOfRange nat nat

definition index_slice :: "'a list \<Rightarrow> nat \<Rightarrow> panic + 'a" where
  "index_slice xs i = (if i < length xs then Inr (xs ! i) else Inl (IndexOutOfRange i (length xs)))"

subsection \<open>\<^verbatim>\<open>strings.Index\<close> and \<^verbatim>\<open>strings.Split\<close>\<close>

text \<open>
  \<^verbatim>\<open>strings.Index(s, sep)\<close> is the position of the first occurrence of \<open>sep\<close> in
  \<open>s\<close>; Go returns \<open>-1\<close> where the model returns \<open>None\<close>.
\<close>

fun Index :: "string \<Rightarrow> string \<Rightarrow> nat option" where
  "Index [] sep = (if sep = [] then Some 0 else None)"
| "Index (c # cs) sep = (if prefix sep (c # cs) then Some 0 else map_option Suc (Index cs sep))"

text \<open>
  \<^verbatim>\<open>strings.Split(s, sep)\<close> cuts \<open>s\<close> at every occurrence of \<open>sep\<close>, left to right:
  the loop of \<^verbatim>\<open>genSplit\<close> takes \<^verbatim>\<open>s[:m]\<close> for the first occurrence \<open>m\<close>, goes on with
  \<^verbatim>\<open>s[m+len(sep):]\<close>, and ends with the rest. With an empty separator Go explodes the
  string into its characters (byte-wise here; the verifier only splits at non-empty
  separators).
\<close>

function Split :: "string \<Rightarrow> string \<Rightarrow> string list" where
  "Split s sep =
     (if sep = [] then map (\<lambda>c. [c]) s
      else case Index s sep of
             None \<Rightarrow> [s]
           | Some m \<Rightarrow> take m s # Split (drop (m + length sep) s) sep)"
  by pat_completeness auto

termination Split
proof (relation "measure (\<lambda>(s, sep). length s)")
  show "wf (measure (\<lambda>(s, sep). length s))" by simp
next
  fix s sep :: string and m
  assume sep: "sep \<noteq> []" and found: "Index s sep = Some m"
  have bound: "Index t sep = Some k \<Longrightarrow> k + length sep \<le> length t" for t k
  proof (induction t arbitrary: k)
    case Nil
    then show ?case by (simp split: if_splits)
  next
    case (Cons c cs)
    show ?case
    proof (cases "prefix sep (c # cs)")
      case True
      with Cons.prems have "k = 0" by simp
      with prefix_length_le [OF True] show ?thesis by simp
    next
      case False
      with Cons.prems obtain j where "Index cs sep = Some j" "k = Suc j" by auto
      with Cons.IH show ?thesis by simp
    qed
  qed
  from bound [OF found] sep have "length s - (m + length sep) < length s"
    by (cases sep) auto
  then show "((drop (m + length sep) s, sep), (s, sep)) \<in> measure (\<lambda>(s, sep). length s)"
    by simp
qed

declare Split.simps [simp del]

subsection \<open>Errors\<close>

text \<open>
  A Go \<^verbatim>\<open>error\<close> is a value with a message (\<^verbatim>\<open>Error()\<close>). \<^verbatim>\<open>errors.New\<close> and
  \<^verbatim>\<open>fmt.Errorf\<close> without a \<^verbatim>\<open>%w\<close> verb give \<open>Err\<close>; an error that wraps others
  (\<^verbatim>\<open>fmt.Errorf\<close> with \<^verbatim>\<open>%w\<close>, \<^verbatim>\<open>errors.Join\<close>) is \<open>Wrap\<close> with its message and the
  errors it wraps, which \<^verbatim>\<open>errors.Is\<close> searches.
\<close>

datatype error = Err string | Wrap string "error list"

fun Error :: "error \<Rightarrow> string" where
  "Error (Err m) = m"
| "Error (Wrap m es) = m"

fun Is :: "error \<Rightarrow> error \<Rightarrow> bool" where
  "Is (Err m) target = (Err m = target)"
| "Is (Wrap m es) target = (Wrap m es = target \<or> list_ex (\<lambda>e. Is e target) es)"

subsection \<open>Time\<close>

text \<open>
  Instants and durations count nanoseconds, as \<^verbatim>\<open>time.Duration\<close> does; an instant is
  the count since the Unix epoch. The range of Go's 64-bit representation is not
  modelled.
\<close>

type_synonym time = int
type_synonym duration = int

definition Minute :: duration where
  "Minute = 60 * 1000000000"

definition Add :: "time \<Rightarrow> duration \<Rightarrow> time" where
  "Add t d = t + d"

definition Before :: "time \<Rightarrow> time \<Rightarrow> bool" where
  "Before t u = (t < u)"

subsection \<open>Interface values\<close>

text \<open>
  A value of type \<^verbatim>\<open>interface{}\<close> in a token header. The verifier only looks at the
  dynamic type, with the type assertion \<^verbatim>\<open>.(string)\<close>.
\<close>

datatype any = AnyNil | AnyString string | AnyInt int | AnyBool bool | AnyOther


section \<open>The token library \<^verbatim>\<open>github.com/golang-jwt/jwt/v5\<close>\<close>

text \<open>
  The verifier hands parsing, signature checking and claim validation to the token
  library. This section follows the library's parser (\<^verbatim>\<open>parser.go\<close>,
  \<^verbatim>\<open>parser_option.go\<close>), validator (\<^verbatim>\<open>validator.go\<close>) and error constructors
  (\<^verbatim>\<open>errors.go\<close>), version 5 (with the expected audience a single string, as in 5.0 to
  5.2; the later list of audiences differs only for an empty expected audience). The
  library is a dependency of the package and not part of its sources. Base64 and JSON
  decoding, PEM parsing and the signature mathematics stay abstract: they are the fields
  of the record \<open>extern\<close> below, and every theorem holds for all of them.
\<close>

subsection \<open>Claims\<close>

text \<open>
  \<^verbatim>\<open>jwt.RegisteredClaims\<close>: an absent \<^verbatim>\<open>*NumericDate\<close> is \<open>None\<close>, an absent string
  is empty, an absent audience is the empty list.
\<close>

record RegisteredClaims =
  Issuer :: string
  Subject :: string
  Audience :: "string list"
  ExpiresAt :: "time option"
  NotBefore :: "time option"
  IssuedAt :: "time option"
  ID :: string

text \<open>
  Modelled from the spec: the declaration of \<^verbatim>\<open>SsdJwtClaims\<close> is in a file of the
  package that is not among the sources. The spec's claims are "issuer, audience,
  subject/identity fields, issued-at time, expiration time [...] plus any
  domain-specific fields the token format carries": the registered claims, which the
  library's validator reads through the \<^verbatim>\<open>jwt.Claims\<close> getters, extended by a
  domain-specific part of any type \<open>'a\<close>.
\<close>

record 'a SsdJwtClaims = RegisteredClaims +
  SSDClaims :: 'a

subsection \<open>Tokens\<close>

text \<open>
  \<^verbatim>\<open>jwt.Token\<close>. A signing method is identified by its name (\<^verbatim>\<open>Alg()\<close>). The
  field \<^verbatim>\<open>Header\<close> is a Go map, read with the comma-ok form; a \<^verbatim>\<open>nil\<close> map reads
  like the empty one.
\<close>

record 'a Token =
  Raw :: string
  Method :: string
  Header :: "string \<rightharpoonup> any"
  Claims :: "'a SsdJwtClaims"
  Signature :: string
  Valid :: bool

subsection \<open>What stays abstract\<close>

text \<open>
  \<^item> \<open>ParseRSAPublicKeyFromPEM\<close>: \<^verbatim>\<open>jwt.ParseRSAPublicKeyFromPEM\<close>, from PEM bytes to a
    key of the abstract type \<open>'key\<close> or an error;
  \<^item> \<open>DecodeSegment\<close>: the base64url decoding of one token segment;
  \<^item> \<open>UnmarshalHeader\<close>, \<open>UnmarshalClaims\<close>: \<^verbatim>\<open>json.Unmarshal\<close> of the decoded header
    into a map and of the decoded payload into the claims struct;
  \<^item> \<open>Verify\<close>: \<^verbatim>\<open>SigningMethod.Verify\<close> of the method named by its first argument, on
    the signing string, the decoded signature and the key; \<open>None\<close> is a valid
    signature;
  \<^item> \<open>ClaimsValidate\<close>: the \<^verbatim>\<open>Validate\<close> method of the claims type, should it
    implement \<^verbatim>\<open>jwt.ClaimsValidator\<close> (\<open>\<lambda>_. None\<close> if it does not);
  \<^item> \<open>Now\<close>: \<^verbatim>\<open>time.Now\<close>;
  \<^item> \<open>ssdTokenAudience\<close>, \<open>ssdTokenIssuer\<close>: the two constants of the package that
    \<^verbatim>\<open>defaultParseOptions\<close> uses; they are declared in a file that is not among the
    sources.
\<close>

record ('key, 'a) extern =
  ParseRSAPublicKeyFromPEM :: "string \<Rightarrow> error + 'key"
  DecodeSegment :: "string \<Rightarrow> error + string"
  UnmarshalHeader :: "string \<Rightarrow> error + (string \<rightharpoonup> any)"
  UnmarshalClaims :: "string \<Rightarrow> error + 'a SsdJwtClaims"
  Verify :: "string \<Rightarrow> string \<Rightarrow> string \<Rightarrow> 'key \<Rightarrow> error option"
  ClaimsValidate :: "'a SsdJwtClaims \<Rightarrow> error option"
  Now :: "unit \<Rightarrow> time"
  ssdTokenAudience :: string
  ssdTokenIssuer :: string

subsection \<open>The library's errors\<close>

definition ErrTokenMalformed :: error where
  "ErrTokenMalformed = Err ''token is malformed''"

definition ErrTokenUnverifiable :: error where
  "ErrTokenUnverifiable = Err ''token is unverifiable''"

definition ErrTokenSignatureInvalid :: error where
  "ErrTokenSignatureInvalid = Err ''token signature is invalid''"

definition ErrTokenRequiredClaimMissing :: error where
  "ErrTokenRequiredClaimMissing = Err ''token is missing required claim''"

definition ErrTokenInvalidAudience :: error where
  "ErrTokenInvalidAudience = Err ''token has invalid audience''"

definition ErrTokenExpired :: error where
  "ErrTokenExpired = Err ''token is expired''"

definition ErrTokenUsedBeforeIssued :: error where
  "ErrTokenUsedBeforeIssued = Err ''token used before issued''"

definition ErrTokenInvalidIssuer :: error where
  "ErrTokenInvalidIssuer = Err ''token has invalid issuer''"

definition ErrTokenInvalidSubject :: error where
  "ErrTokenInvalidSubject = Err ''token has invalid subject''"

definition ErrTokenNotValidYet :: error where
  "ErrTokenNotValidYet = Err ''token is not valid yet''"

definition ErrTokenInvalidClaims :: error where
  "ErrTokenInvalidClaims = Err ''token has invalid claims''"

text \<open>
  \<^verbatim>\<open>newError(message, err, more...)\<close> wraps \<open>err\<close> and the errors of \<^verbatim>\<open>more\<close>
  (\<open>others\<close> here); its text is that of \<open>err\<close>, then the message if there is one,
  then the texts of the others, separated by
  \<^verbatim>\<open>": "\<close>. \<^verbatim>\<open>joinErrors\<close> is \<^verbatim>\<open>errors.Join\<close>: the texts on separate lines.
\<close>

definition newError :: "string \<Rightarrow> error \<Rightarrow> error list \<Rightarrow> error" where
  "newError message err others =
     Wrap (Error err @ (if message \<noteq> [] then '': '' @ message else [])
             @ concat (map (\<lambda>e. '': '' @ Error e) others))
          (err # others)"

fun joinLines :: "string list \<Rightarrow> string" where
  "joinLines [] = []"
| "joinLines [x] = x"
| "joinLines (x # y # ys) = x @ [CHR 0x0A] @ joinLines (y # ys)"

definition joinErrors :: "error list \<Rightarrow> error" where
  "joinErrors errs = Wrap (joinLines (map Error errs)) errs"

definition errorIfFalse :: "bool \<Rightarrow> error \<Rightarrow> error option" where
  "errorIfFalse v err = (if v then None else Some err)"

definition errorIfRequired :: "bool \<Rightarrow> string \<Rightarrow> error option" where
  "errorIfRequired required claim =
     (if required then Some (newError (claim @ '' claim is required'') ErrTokenRequiredClaimMissing [])
      else None)"

subsection \<open>Validator and parser, and their options\<close>

record Validator =
  leeway :: duration
  timeFunc :: "(unit \<Rightarrow> time) option"
  requireExp :: bool
  verifyIat :: bool
  expectedAud :: string
  expectedIss :: string
  expectedSub :: string

record Parser =
  validMethods :: "string list option"
  skipClaimsValidation :: bool
  validator :: Validator

type_synonym ParserOption = "Parser \<Rightarrow> Parser"

definition WithValidMethods :: "string list \<Rightarrow> ParserOption" where
  "WithValidMethods methods p = p\<lparr>validMethods := Some methods\<rparr>"

definition WithLeeway :: "duration \<Rightarrow> ParserOption" where
  "WithLeeway d p = p\<lparr>validator := (validator p)\<lparr>leeway := d\<rparr>\<rparr>"

definition WithTimeFunc :: "(unit \<Rightarrow> time) \<Rightarrow> ParserOption" where
  "WithTimeFunc f p = p\<lparr>validator := (validator p)\<lparr>timeFunc := Some f\<rparr>\<rparr>"

definition WithIssuedAt :: ParserOption where
  "WithIssuedAt p = p\<lparr>validator := (validator p)\<lparr>verifyIat := True\<rparr>\<rparr>"

definition WithExpirationRequired :: ParserOption where
  "WithExpirationRequired p = p\<lparr>validator := (validator p)\<lparr>requireExp := True\<rparr>\<rparr>"

definition WithAudience :: "string \<Rightarrow> ParserOption" where
  "WithAudience aud p = p\<lparr>validator := (validator p)\<lparr>expectedAud := aud\<rparr>\<rparr>"

definition WithIssuer :: "string \<Rightarrow> ParserOption" where
  "WithIssuer iss p = p\<lparr>validator := (validator p)\<lparr>expectedIss := iss\<rparr>\<rparr>"

text \<open>\<^verbatim>\<open>NewParser\<close> starts from the zero parser and applies the options in order.\<close>

definition zeroParser :: Parser where
  "zeroParser =
     \<lparr>validMethods = None, skipClaimsValidation = False,
      validator = \<lparr>leeway = 0, timeFunc = None, requireExp = False, verifyIat = False,
                   expectedAud = [], expectedIss = [], expectedSub = []\<rparr>\<rparr>"

definition NewParser :: "ParserOption list \<Rightarrow> Parser" where
  "NewParser options = fold (\<lambda>option p. option p) options zeroParser"


subsection \<open>Claim validation\<close>

text \<open>
  The checks of \<^verbatim>\<open>validator.go\<close>. Each takes the instant \<open>cmp\<close> to compare with and the
  flag \<open>required\<close>, which says what an absent claim means. The getters of the
  registered claims never fail.
\<close>

definition verifyExpiresAt :: "Validator \<Rightarrow> 'a SsdJwtClaims \<Rightarrow> time \<Rightarrow> bool \<Rightarrow> error option" where
  "verifyExpiresAt v claims cmp required =
     (case ExpiresAt claims of
        None \<Rightarrow> errorIfRequired required ''exp''
      | Some exp \<Rightarrow> errorIfFalse (Before cmp (Add exp (leeway v))) ErrTokenExpired)"

definition verifyIssuedAt :: "Validator \<Rightarrow> 'a SsdJwtClaims \<Rightarrow> time \<Rightarrow> bool \<Rightarrow> error option" where
  "verifyIssuedAt v claims cmp required =
     (case IssuedAt claims of
        None \<Rightarrow> errorIfRequired required ''iat''
      | Some iat \<Rightarrow> errorIfFalse (\<not> Before cmp (Add iat (- leeway v))) ErrTokenUsedBeforeIssued)"

definition verifyNotBefore :: "Validator \<Rightarrow> 'a SsdJwtClaims \<Rightarrow> time \<Rightarrow> bool \<Rightarrow> error option" where
  "verifyNotBefore v claims cmp required =
     (case NotBefore claims of
        None \<Rightarrow> errorIfRequired required ''nbf''
      | Some nbf \<Rightarrow> errorIfFalse (\<not> Before cmp (Add nbf (- leeway v))) ErrTokenNotValidYet)"

text \<open>
  \<^verbatim>\<open>verifyAudience\<close> loops over the audience, remembering whether one entry equals
  \<open>cmp\<close> and concatenating the entries to see whether all of them are empty.
\<close>

definition verifyAudience :: "'a SsdJwtClaims \<Rightarrow> string \<Rightarrow> bool \<Rightarrow> error option" where
  "verifyAudience claims cmp required =
     (let aud = Audience claims in
      if length aud = 0 then errorIfRequired required ''aud''
      else
        let result = list_ex (\<lambda>a. a = cmp) aud;
            stringClaims = concat aud
        in if stringClaims = [] then errorIfRequired required ''aud''
           else errorIfFalse result ErrTokenInvalidAudience)"

definition verifyIssuer :: "'a SsdJwtClaims \<Rightarrow> string \<Rightarrow> bool \<Rightarrow> error option" where
  "verifyIssuer claims cmp required =
     (let iss = Issuer claims in
      if iss = [] then errorIfRequired required ''iss''
      else errorIfFalse (iss = cmp) ErrTokenInvalidIssuer)"

definition verifySubject :: "'a SsdJwtClaims \<Rightarrow> string \<Rightarrow> bool \<Rightarrow> error option" where
  "verifySubject claims cmp required =
     (let sub = Subject claims in
      if sub = [] then errorIfRequired required ''sub''
      else errorIfFalse (sub = cmp) ErrTokenInvalidSubject)"

text \<open>
  \<^verbatim>\<open>Validator.Validate\<close> reads the clock once, runs the checks in this order, collects
  the errors (\<open>errs\<close>) and joins them. Expiration and not-before are always checked (the
  claims themselves are optional unless \<open>requireExp\<close>); issued-at is checked only with
  \<open>verifyIat\<close>, and then with \<open>required = False\<close>; audience, issuer and subject are
  checked, and required, when an expected value is configured.
\<close>

definition collect :: "error option list \<Rightarrow> error list" where
  "collect rs = concat (map (\<lambda>r. case r of None \<Rightarrow> [] | Some e \<Rightarrow> [e]) rs)"

definition Validate :: "('key, 'a) extern \<Rightarrow> Validator \<Rightarrow> 'a SsdJwtClaims \<Rightarrow> error option" where
  "Validate ext v claims =
     (let now = (case timeFunc v of Some f \<Rightarrow> f () | None \<Rightarrow> Now ext ());
          errs = collect
            [verifyExpiresAt v claims now (requireExp v),
             verifyNotBefore v claims now False,
             if verifyIat v then verifyIssuedAt v claims now False else None,
             if expectedAud v \<noteq> [] then verifyAudience claims (expectedAud v) True else None,
             if expectedIss v \<noteq> [] then verifyIssuer claims (expectedIss v) True else None,
             if expectedSub v \<noteq> [] then verifySubject claims (expectedSub v) True else None,
             ClaimsValidate ext claims]
      in if length errs = 0 then None else Some (joinErrors errs))"

subsection \<open>Parsing\<close>

text \<open>
  The signing methods the library registers at start-up; \<^verbatim>\<open>GetSigningMethod\<close> finds a
  method by its name.
\<close>

definition signingMethods :: "string list" where
  "signingMethods =
     [''ES256'', ''ES384'', ''ES512'', ''EdDSA'', ''HS256'', ''HS384'', ''HS512'', ''none'',
      ''PS256'', ''PS384'', ''PS512'', ''RS256'', ''RS384'', ''RS512'']"

definition GetSigningMethod :: "string \<Rightarrow> string option" where
  "GetSigningMethod alg = (if alg \<in> set signingMethods then Some alg else None)"

definition SigningMethodPS256_Name :: string where
  "SigningMethodPS256_Name = ''PS256''"

text \<open>
  \<^verbatim>\<open>Parser.ParseUnverified\<close>: three segments separated by dots; the header and the
  payload are decoded; the header names the signing method in \<^verbatim>\<open>alg\<close>, which has to be
  a string and the name of a registered method. The result is the token and the three
  segments. (Where the library adds a hint to the text of the error for a token string that
  still carries its \<^verbatim>\<open>bearer\<close> prefix, the model has the plain text; the wrapped errors
  are the same.)
\<close>

definition ParseUnverified ::
  "('key, 'a) extern \<Rightarrow> string \<Rightarrow> error + ('a Token \<times> string list)" where
  "ParseUnverified ext tokenString =
     (let parts = Split tokenString ''.'' in
      if length parts \<noteq> 3
      then Inl (newError ''token contains an invalid number of segments'' ErrTokenMalformed [])
      else case DecodeSegment ext (parts ! 0) of
        Inl err \<Rightarrow> Inl (newError ''could not base64 decode header'' ErrTokenMalformed [err])
      | Inr headerBytes \<Rightarrow>
      (case UnmarshalHeader ext headerBytes of
        Inl err \<Rightarrow> Inl (newError ''could not JSON decode header'' ErrTokenMalformed [err])
      | Inr header \<Rightarrow>
      (case DecodeSegment ext (parts ! 1) of
        Inl err \<Rightarrow> Inl (newError ''could not base64 decode claim'' ErrTokenMalformed [err])
      | Inr claimBytes \<Rightarrow>
      (case UnmarshalClaims ext claimBytes of
        Inl err \<Rightarrow> Inl (newError ''could not JSON decode claim'' ErrTokenMalformed [err])
      | Inr claims \<Rightarrow>
      (case header ''alg'' of
        Some (AnyString method) \<Rightarrow>
          (case GetSigningMethod method of
             None \<Rightarrow> Inl (newError ''signing method (alg) is unavailable'' ErrTokenUnverifiable [])
           | Some m \<Rightarrow>
               Inr (\<lparr>Raw = tokenString, Method = m, Header = header, Claims = claims,
                     Signature = [], Valid = False\<rparr>, parts))
      | _ \<Rightarrow> Inl (newError ''signing method (alg) is unspecified'' ErrTokenUnverifiable []))))))"

text \<open>
  \<^verbatim>\<open>Parser.ParseWithClaims\<close>: after \<open>ParseUnverified\<close>, the method has to be one of
  \<open>validMethods\<close> (when these are set); then the signature segment is decoded, the key
  function is asked for the key, the method verifies the signature over the first two
  segments, and the validator checks the claims. A token is returned as valid only at
  the end.
\<close>

definition ParseWithClaims ::
  "('key, 'a) extern \<Rightarrow> Parser \<Rightarrow> string \<Rightarrow> ('a Token \<Rightarrow> error + 'key) \<Rightarrow> error + 'a Token" where
  "ParseWithClaims ext p tokenString keyFunc =
     (case ParseUnverified ext tokenString of
        Inl err \<Rightarrow> Inl err
      | Inr (token, parts) \<Rightarrow>
      let alg = Method token;
          signingMethodValid = (case validMethods p of None \<Rightarrow> True | Some ms \<Rightarrow> list_ex (\<lambda>m. m = alg) ms)
      in
      if \<not> signingMethodValid
      then Inl (newError (''signing method '' @ alg @ '' is invalid'') ErrTokenSignatureInvalid [])
      else case DecodeSegment ext (parts ! 2) of
        Inl err \<Rightarrow> Inl (newError ''could not base64 decode signature'' ErrTokenMalformed [err])
      | Inr sig \<Rightarrow>
      (let token = token\<lparr>Signature := sig\<rparr>;
           signingString = parts ! 0 @ ''.'' @ parts ! 1
       in case keyFunc token of
        Inl err \<Rightarrow> Inl (newError ''error while executing keyfunc'' ErrTokenUnverifiable [err])
      | Inr key \<Rightarrow>
      (case Verify ext (Method token) signingString sig key of
        Some err \<Rightarrow> Inl (newError [] ErrTokenSignatureInvalid [err])
      | None \<Rightarrow>
      (case (if skipClaimsValidation p then None else Validate ext (validator p) (Claims token)) of
        Some err \<Rightarrow> Inl (newError [] ErrTokenInvalidClaims [err])
      | None \<Rightarrow> Inr (token\<lparr>Valid := True\<rparr>)))))"


section \<open>The verifier (\<^verbatim>\<open>verifier.go\<close>)\<close>

subsection \<open>Key store and policy\<close>

text \<open>
  \<^verbatim>\<open>defaultParseOptions\<close>: the fixed policy, as a list of parser options.
\<close>

definition defaultParseOptions :: "('key, 'a) extern \<Rightarrow> ParserOption list" where
  "defaultParseOptions ext =
     [WithLeeway (5 * Minute),
      WithAudience (ssdTokenAudience ext),
      WithExpirationRequired,
      WithIssuedAt,
      WithIssuer (ssdTokenIssuer ext),
      WithValidMethods [SigningMethodPS256_Name]]"

text \<open>
  The struct \<^verbatim>\<open>Verifier\<close>. The embedded mutex serialises \<^verbatim>\<open>SetKeys\<close> and the key
  function; the model is sequential, one call after the other, so the mutex has no
  counterpart here.
\<close>

record 'key Verifier =
  Keys :: "string \<rightharpoonup> 'key"
  parseOptions :: "ParserOption list"

text \<open>
  \<^verbatim>\<open>parseKeys\<close> ranges over the Go map \<^verbatim>\<open>pemkeys\<close>. The map is given as the list of its
  entries in the order in which the \<^verbatim>\<open>range\<close> statement visits them (Go fixes no
  order, so a statement about \<open>parseKeys\<close> is made for every list); a Go map holds a
  key once, so the names of the list are distinct. The loop returns at the first entry
  that does not parse, with a \<^verbatim>\<open>fmt.Errorf\<close> error that carries the name and the text
  of the parser's error.
\<close>

fun parseKeys_loop ::
  "('key, 'a) extern \<Rightarrow> (string \<rightharpoonup> 'key) \<Rightarrow> (string \<times> string) list \<Rightarrow> error + (string \<rightharpoonup> 'key)" where
  "parseKeys_loop ext keys [] = Inr keys"
| "parseKeys_loop ext keys ((name, pemstring) # rest) =
     (case ParseRSAPublicKeyFromPEM ext pemstring of
        Inl err \<Rightarrow> Inl (Err (''unable to parse pem for keyID '' @ name @ '': '' @ Error err))
      | Inr rk \<Rightarrow> parseKeys_loop ext (keys(name \<mapsto> rk)) rest)"

definition parseKeys ::
  "('key, 'a) extern \<Rightarrow> (string \<times> string) list \<Rightarrow> error + (string \<rightharpoonup> 'key)" where
  "parseKeys ext pemkeys = parseKeys_loop ext Map.empty pemkeys"

text \<open>
  \<^verbatim>\<open>NewVerifier\<close>: the keys are parsed first; the options are the default ones, followed
  by \<^verbatim>\<open>jwt.WithTimeFunc\<close> when a time function is given (\<open>None\<close> is the \<^verbatim>\<open>nil\<close>
  pointer).
\<close>

definition NewVerifier ::
  "('key, 'a) extern \<Rightarrow> (string \<times> string) list \<Rightarrow> (unit \<Rightarrow> time) option \<Rightarrow> error + 'key Verifier" where
  "NewVerifier ext pemkeys timeFunc' =
     (case parseKeys ext pemkeys of
        Inl err \<Rightarrow> Inl err
      | Inr keys \<Rightarrow>
          let opts = [] @ defaultParseOptions ext;
              opts = (case timeFunc' of None \<Rightarrow> opts | Some f \<Rightarrow> opts @ [WithTimeFunc f])
          in Inr \<lparr>Keys = keys, parseOptions = opts\<rparr>)"

text \<open>
  \<^verbatim>\<open>SetKeys\<close> changes the verifier in place and returns an error or \<^verbatim>\<open>nil\<close>: the model
  returns the verifier after the call together with the error.
\<close>

definition SetKeys ::
  "('key, 'a) extern \<Rightarrow> 'key Verifier \<Rightarrow> (string \<times> string) list \<Rightarrow> 'key Verifier \<times> error option" where
  "SetKeys ext v pemkeys =
     (case parseKeys ext pemkeys of
        Inl err \<Rightarrow> (v, Some err)
      | Inr keys \<Rightarrow> (v\<lparr>Keys := keys\<rparr>, None))"

subsection \<open>Key resolution and verification\<close>

definition KeyFunc :: "'key Verifier \<Rightarrow> 'a Token \<Rightarrow> error + 'key" where
  "KeyFunc v token =
     (case Header token ''kid'' of
        None \<Rightarrow> Inl (Err ''no `kid` in header'')
      | Some kidi \<Rightarrow>
          (case kidi of
             AnyString kid \<Rightarrow>
               (case Keys v kid of
                  None \<Rightarrow> Inl (Err (''no such key '' @ kid))
                | Some key \<Rightarrow> Inr key)
           | _ \<Rightarrow> Inl (Err ''cannot convert `kid` to string'')))"

text \<open>
  \<^verbatim>\<open>VerifyToken\<close>. The claims the parser fills are the \<^verbatim>\<open>*SsdJwtClaims\<close> that
  \<open>VerifyToken\<close> passes in, so the type assertion on \<^verbatim>\<open>token.Claims\<close> holds whenever the
  parser returns a token, and its failure branch has no counterpart in the typed model.
\<close>

definition VerifyToken ::
  "('key, 'a) extern \<Rightarrow> 'key Verifier \<Rightarrow> string \<Rightarrow> error + 'a SsdJwtClaims" where
  "VerifyToken ext v tokenString =
     (case ParseWithClaims ext (NewParser (parseOptions v)) tokenString (KeyFunc v) of
        Inl err \<Rightarrow> Inl err
      | Inr token \<Rightarrow> Inr (Claims token))"


section \<open>The request adapter\<close>

subsection \<open>Request headers\<close>

text \<open>
  \<^verbatim>\<open>http.Header\<close> maps a header name in canonical form to its values; the server stores
  the headers of a request under their canonical names. \<^verbatim>\<open>Header.Get\<close> canonicalises the
  name it is given (\<^verbatim>\<open>textproto.CanonicalMIMEHeaderKey\<close>: the first letter and every
  letter after a dash in upper case, the others in lower case, and a name with a byte
  that is not allowed in a header name unchanged) and returns the first value, or the
  empty string when there is none.
\<close>

definition lowerLetters :: string where
  "lowerLetters = ''abcdefghijklmnopqrstuvwxyz''"

definition upperLetters :: string where
  "upperLetters = ''ABCDEFGHIJKLMNOPQRSTUVWXYZ''"

definition validHeaderFieldByte :: "char \<Rightarrow> bool" where
  "validHeaderFieldByte c =
     (c \<in> set (lowerLetters @ upperLetters @ ''0123456789'' @ ''!#$%&*+-.^_`|~'' @ [CHR 0x27]))"

definition toUpper :: "char \<Rightarrow> char" where
  "toUpper c = (case map_of (zip lowerLetters upperLetters) c of Some u \<Rightarrow> u | None \<Rightarrow> c)"

definition toLower :: "char \<Rightarrow> char" where
  "toLower c = (case map_of (zip upperLetters lowerLetters) c of Some l \<Rightarrow> l | None \<Rightarrow> c)"

fun canonicalise :: "bool \<Rightarrow> string \<Rightarrow> string" where
  "canonicalise upper [] = []"
| "canonicalise upper (c # cs) =
     (let c' = (if upper then toUpper c else toLower c)
      in c' # canonicalise (c' = CHR ''-'') cs)"

definition CanonicalMIMEHeaderKey :: "string \<Rightarrow> string" where
  "CanonicalMIMEHeaderKey s = (if list_all validHeaderFieldByte s then canonicalise True s else s)"

definition Get :: "(string \<rightharpoonup> string list) \<Rightarrow> string \<Rightarrow> string" where
  "Get h key =
     (case h (CanonicalMIMEHeaderKey key) of
        None \<Rightarrow> []
      | Some [] \<Rightarrow> []
      | Some (v # _) \<Rightarrow> v)"

subsection \<open>Request contexts\<close>

text \<open>
  A \<^verbatim>\<open>context.Context\<close>, as far as \<^verbatim>\<open>Value\<close> sees it: the background context, or a
  parent extended by \<^verbatim>\<open>context.WithValue\<close> with one key and one value. Keys are
  interface values and compare by dynamic type and value: a key of the package's own
  type \<^verbatim>\<open>ssdContextKeyType\<close> is \<open>SsdContextKeyType n\<close>, a key of any other type is an
  \<open>OtherKey\<close>. A value is a \<^verbatim>\<open>*SsdJwtClaims\<close> (\<open>None\<close> the \<^verbatim>\<open>nil\<close> pointer), a string,
  or a value of another type. Contexts are never \<^verbatim>\<open>nil\<close> (the \<^verbatim>\<open>context\<close> package
  forbids it, and \<^verbatim>\<open>Request.Context\<close> never returns \<^verbatim>\<open>nil\<close>).
\<close>

datatype ctx_key = SsdContextKeyType int | OtherKey nat

datatype 'a ctx_value =
  ClaimsPtr "'a SsdJwtClaims option" | StringValue string | OtherValue nat

datatype 'a Context = Background | WithValue "'a Context" ctx_key "'a ctx_value"

text \<open>\<^verbatim>\<open>ctx.Value(key)\<close>: the innermost value stored under the key; \<open>None\<close> is \<^verbatim>\<open>nil\<close>.\<close>

fun Value :: "'a Context \<Rightarrow> ctx_key \<Rightarrow> 'a ctx_value option" where
  "Value Background key = None"
| "Value (WithValue parent k val) key = (if k = key then Some val else Value parent key)"

fun ctx_keys :: "'a Context \<Rightarrow> ctx_key set" where
  "ctx_keys Background = {}"
| "ctx_keys (WithValue parent k val) = insert k (ctx_keys parent)"

definition ssdContextKey :: ctx_key where
  "ssdContextKey = SsdContextKeyType 0"

definition ssdTokenContextKey :: ctx_key where
  "ssdTokenContextKey = SsdContextKeyType 1"

definition contextWithToken :: "'a Context \<Rightarrow> 'a SsdJwtClaims option \<Rightarrow> string \<Rightarrow> 'a Context" where
  "contextWithToken ctx claims token =
     (let ctx = WithValue ctx ssdContextKey (ClaimsPtr claims);
          ctx = WithValue ctx ssdTokenContextKey (StringValue token)
      in ctx)"

text \<open>
  The two accessors: a type assertion in comma-ok form on the value found, which gives
  the zero value and \<open>False\<close> when the value is \<^verbatim>\<open>nil\<close> or of another type.
\<close>

definition SSDClaimsFromContext :: "'a Context \<Rightarrow> 'a SsdJwtClaims option \<times> bool" where
  "SSDClaimsFromContext ctx =
     (case Value ctx ssdContextKey of
        Some (ClaimsPtr v) \<Rightarrow> (v, True)
      | _ \<Rightarrow> (None, False))"

definition SSDTokenFromContext :: "'a Context \<Rightarrow> string \<times> bool" where
  "SSDTokenFromContext ctx =
     (case Value ctx ssdTokenContextKey of
        Some (StringValue v) \<Rightarrow> (v, True)
      | _ \<Rightarrow> ([], False))"

subsection \<open>Requests, response writers, handlers\<close>

text \<open>
  Of an \<^verbatim>\<open>http.Request\<close> the middleware reads the headers (\<open>ReqHeader\<close>, the field
  \<^verbatim>\<open>Header\<close>) and the context (\<open>Ctx\<close>). \<^verbatim>\<open>Request.WithContext\<close> returns a copy with
  another context and leaves the request it is called on as it was.
\<close>

record 'a Request =
  ReqHeader :: "string \<rightharpoonup> string list"
  Ctx :: "'a Context"

definition WithContext :: "'a Request \<Rightarrow> 'a Context \<Rightarrow> 'a Request" where
  "WithContext r ctx = r\<lparr>Ctx := ctx\<rparr>"

text \<open>
  An \<^verbatim>\<open>http.ResponseWriter\<close> is an interface; what a handler does to it is the sequence of
  its calls, and the state of a writer is the list of the calls made on it so far. A
  handler takes the writer and the request and returns the writer after its calls.
\<close>

datatype rw_call = CallWriteHeader nat | CallWrite string

type_synonym ResponseWriter = "rw_call list"

type_synonym 'a Handler = "ResponseWriter \<Rightarrow> 'a Request \<Rightarrow> ResponseWriter"

definition WriteHeader :: "ResponseWriter \<Rightarrow> nat \<Rightarrow> ResponseWriter" where
  "WriteHeader w statusCode = w @ [CallWriteHeader statusCode]"

definition Write :: "ResponseWriter \<Rightarrow> string \<Rightarrow> ResponseWriter" where
  "Write w b = w @ [CallWrite b]"

definition StatusUnauthorized :: nat where
  "StatusUnauthorized = 401"

subsection \<open>Token extraction and the middleware\<close>

text \<open>
  \<^verbatim>\<open>tokenFromHeaders\<close>: the value of \<^verbatim>\<open>Authorization\<close>, or of \<^verbatim>\<open>X-OpsMx-Auth\<close> when the
  first is empty; the empty string when both are; otherwise the second element of the
  value split at \<^verbatim>\<open>"Bearer "\<close>, an index expression that panics when the split has a
  single element.
\<close>

definition tokenFromHeaders :: "'a Request \<Rightarrow> panic + string" where
  "tokenFromHeaders r =
     (let auth = Get (ReqHeader r) ''Authorization'';
          auth = (if auth = [] then Get (ReqHeader r) ''X-OpsMx-Auth'' else auth)
      in if auth = [] then Inr []
         else let splitToken = Split auth ''Bearer '' in index_slice splitToken 1)"

text \<open>
  The handler that \<^verbatim>\<open>MiddlewareFunc\<close> wraps around \<open>next\<close>. A panic of the token
  extraction leaves the handler before anything is written.
\<close>

definition MiddlewareFunc ::
  "('key, 'a) extern \<Rightarrow> 'key Verifier \<Rightarrow> 'a Handler \<Rightarrow> ResponseWriter \<Rightarrow> 'a Request \<Rightarrow> panic + ResponseWriter" where
  "MiddlewareFunc ext v next w r =
     (case tokenFromHeaders r of
        Inl p \<Rightarrow> Inl p
      | Inr tokenStr \<Rightarrow>
          (case VerifyToken ext v tokenStr of
             Inl err \<Rightarrow> Inr (Write (WriteHeader w StatusUnauthorized) ''Unauthorized'')
           | Inr claims \<Rightarrow>
               let r = WithContext r (contextWithToken (Ctx r) (Some claims) tokenStr)
               in Inr (next w r)))"

section \<open>Vocabulary of the statements\<close>

text \<open>
  The statements below speak of the instant the policy takes as "now", of the header a
  token string carries, of a token string whose signature verifies, and of the single
  claim checks. These notions are defined here from the functions of the model; the lemmas
  of the next sections relate them to \<open>VerifyToken\<close>.

  \<^item> \<open>policyNow\<close>: the time function given to \<open>NewVerifier\<close>, or the wall clock;
  \<^item> \<open>policyParser\<close>: the parser that the options of a new verifier configure;
  \<^item> \<open>declaredHeader\<close>: the header of a token string with three segments whose first
    segment decodes;
  \<^item> \<open>signatureVerifies\<close>: the token string parses, its signature segment decodes, the
    key function finds its key, and the declared method accepts the signature;
  \<^item> \<open>expirationOk\<close>, \<open>notBeforeOk\<close>, \<open>issuedAtOk\<close>, \<open>audienceOk\<close>, \<open>issuerOk\<close>: one claim
    passes its check at the instant \<open>now\<close> under the policy;
  \<^item> \<open>validApartFromExpiration\<close>, \<open>validApartFromIssuedAt\<close>: a token that passes
    everything, one claim left aside.
\<close>

definition policyNow :: "('key, 'a) extern \<Rightarrow> (unit \<Rightarrow> time) option \<Rightarrow> time" where
  "policyNow ext tf = (case tf of Some f \<Rightarrow> f () | None \<Rightarrow> Now ext ())"

definition declaredHeader :: "('key, 'a) extern \<Rightarrow> string \<Rightarrow> (string \<rightharpoonup> any) option" where
  "declaredHeader ext tokenString =
     (let parts = Split tokenString ''.'' in
      if length parts \<noteq> 3 then None
      else case DecodeSegment ext (parts ! 0) of
             Inl _ \<Rightarrow> None
           | Inr headerBytes \<Rightarrow>
               (case UnmarshalHeader ext headerBytes of Inl _ \<Rightarrow> None | Inr header \<Rightarrow> Some header))"

definition declaresPS256 :: "('key, 'a) extern \<Rightarrow> string \<Rightarrow> bool" where
  "declaresPS256 ext tokenString =
     (case declaredHeader ext tokenString of
        None \<Rightarrow> False
      | Some header \<Rightarrow> header ''alg'' = Some (AnyString ''PS256''))"

definition claimsOf :: "('key, 'a) extern \<Rightarrow> string \<Rightarrow> 'a SsdJwtClaims option" where
  "claimsOf ext tokenString =
     (case ParseUnverified ext tokenString of Inl _ \<Rightarrow> None | Inr (token, parts) \<Rightarrow> Some (Claims token))"

definition signatureVerifies :: "('key, 'a) extern \<Rightarrow> 'key Verifier \<Rightarrow> string \<Rightarrow> bool" where
  "signatureVerifies ext v tokenString =
     (case ParseUnverified ext tokenString of
        Inl _ \<Rightarrow> False
      | Inr (token, parts) \<Rightarrow>
          (case DecodeSegment ext (parts ! 2) of
             Inl _ \<Rightarrow> False
           | Inr sig \<Rightarrow>
               (case KeyFunc v (token\<lparr>Signature := sig\<rparr>) of
                  Inl _ \<Rightarrow> False
                | Inr key \<Rightarrow>
                    Verify ext (Method token) (parts ! 0 @ ''.'' @ parts ! 1) sig key = None)))"

definition expirationOk :: "time \<Rightarrow> 'a SsdJwtClaims \<Rightarrow> bool" where
  "expirationOk now c = (case ExpiresAt c of None \<Rightarrow> False | Some exp \<Rightarrow> now < exp + 5 * Minute)"

definition notBeforeOk :: "time \<Rightarrow> 'a SsdJwtClaims \<Rightarrow> bool" where
  "notBeforeOk now c = (case NotBefore c of None \<Rightarrow> True | Some nbf \<Rightarrow> nbf - 5 * Minute \<le> now)"

definition issuedAtOk :: "time \<Rightarrow> 'a SsdJwtClaims \<Rightarrow> bool" where
  "issuedAtOk now c = (case IssuedAt c of None \<Rightarrow> True | Some iat \<Rightarrow> iat - 5 * Minute \<le> now)"

definition audienceOk :: "('key, 'a) extern \<Rightarrow> 'a SsdJwtClaims \<Rightarrow> bool" where
  "audienceOk ext c = (ssdTokenAudience ext = [] \<or> ssdTokenAudience ext \<in> set (Audience c))"

definition issuerOk :: "('key, 'a) extern \<Rightarrow> 'a SsdJwtClaims \<Rightarrow> bool" where
  "issuerOk ext c = (ssdTokenIssuer ext = [] \<or> Issuer c = ssdTokenIssuer ext)"

definition policyParser :: "('key, 'a) extern \<Rightarrow> (unit \<Rightarrow> time) option \<Rightarrow> Parser" where
  "policyParser ext tf =
     \<lparr>validMethods = Some [''PS256''], skipClaimsValidation = False,
      validator = \<lparr>leeway = 5 * Minute, timeFunc = tf, requireExp = True, verifyIat = True,
                   expectedAud = ssdTokenAudience ext, expectedIss = ssdTokenIssuer ext,
                   expectedSub = []\<rparr>\<rparr>"

definition validApartFromExpiration ::
  "('key, 'a) extern \<Rightarrow> 'key Verifier \<Rightarrow> time \<Rightarrow> string \<Rightarrow> 'a SsdJwtClaims \<Rightarrow> bool" where
  "validApartFromExpiration ext v now tokenString c =
     (declaresPS256 ext tokenString \<and> signatureVerifies ext v tokenString
      \<and> claimsOf ext tokenString = Some c
      \<and> notBeforeOk now c \<and> issuedAtOk now c \<and> audienceOk ext c \<and> issuerOk ext c
      \<and> ClaimsValidate ext c = None)"

definition validApartFromIssuedAt ::
  "('key, 'a) extern \<Rightarrow> 'key Verifier \<Rightarrow> time \<Rightarrow> string \<Rightarrow> 'a SsdJwtClaims \<Rightarrow> bool" where
  "validApartFromIssuedAt ext v now tokenString c =
     (declaresPS256 ext tokenString \<and> signatureVerifies ext v tokenString
      \<and> claimsOf ext tokenString = Some c
      \<and> expirationOk now c \<and> notBeforeOk now c \<and> audienceOk ext c \<and> issuerOk ext c
      \<and> ClaimsValidate ext c = None)"

section \<open>Sample data\<close>

text \<open>
  A concrete instance of the abstract parts, on which the statements are evaluated: two
  keys, as in the package's test, a clock that stands still, segments that are written
  undecoded, a few headers and payloads, and a signature check that accepts the
  signature \<open>''valid signature''\<close> under every method and key.
\<close>

definition sample_clock :: "unit \<Rightarrow> time" where
  "sample_clock = (\<lambda>_. 1700000000 * 1000000000)"

definition sample_claims :: "time option \<Rightarrow> time option \<Rightarrow> unit SsdJwtClaims" where
  "sample_claims exp iat =
     \<lparr>Issuer = ''sample-issuer'', Subject = ''alice'', Audience = [''sample-audience''],
      ExpiresAt = exp, NotBefore = None, IssuedAt = iat, ID = [], SSDClaims = ()\<rparr>"

definition sample_header :: "string \<Rightarrow> string \<rightharpoonup> any" where
  "sample_header alg = [''alg'' \<mapsto> AnyString alg, ''kid'' \<mapsto> AnyString ''key1'']"

definition sample_ext :: "(nat, unit) extern" where
  "sample_ext =
     \<lparr>ParseRSAPublicKeyFromPEM =
        (\<lambda>pem. if pem = ''PEM of key1'' then Inr 1
               else if pem = ''PEM of key2'' then Inr 2
               else Inl (Err ''invalid key: Key must be a PEM encoded PKCS1 or PKCS8 key'')),
      DecodeSegment = Inr,
      UnmarshalHeader =
        (\<lambda>b. if b = ''PS256 key1'' then Inr (sample_header ''PS256'')
             else if b = ''HS256 key1'' then Inr (sample_header ''HS256'')
             else if b = ''none key1'' then Inr (sample_header ''none'')
             else Inl (Err ''unexpected end of JSON input'')),
      UnmarshalClaims =
        (\<lambda>b. if b = ''expired 10m''
               then Inr (sample_claims (Some (sample_clock () - 10 * Minute)) (Some (sample_clock () - 60 * Minute)))
             else if b = ''expired 3m''
               then Inr (sample_claims (Some (sample_clock () - 3 * Minute)) (Some (sample_clock () - 60 * Minute)))
             else if b = ''no iat''
               then Inr (sample_claims (Some (sample_clock () + 60 * Minute)) None)
             else if b = ''iat in 10m''
               then Inr (sample_claims (Some (sample_clock () + 60 * Minute)) (Some (sample_clock () + 10 * Minute)))
             else Inl (Err ''unexpected end of JSON input'')),
      Verify =
        (\<lambda>alg signingString sig key.
           if sig = ''valid signature'' then None else Some (Err ''crypto/rsa: verification error'')),
      ClaimsValidate = (\<lambda>c. None),
      Now = sample_clock,
      ssdTokenAudience = ''sample-audience'',
      ssdTokenIssuer = ''sample-issuer''\<rparr>"

definition validPEMKeys :: "(string \<times> string) list" where
  "validPEMKeys = [(''key1'', ''PEM of key1''), (''key2'', ''PEM of key2'')]"

definition junkKeys :: "(string \<times> string) list" where
  "junkKeys = [(''badkey'', ''foo'')]"

definition sample_verifier :: "nat Verifier" where
  "sample_verifier =
     \<lparr>Keys = [''key1'' \<mapsto> 1, ''key2'' \<mapsto> 2],
      parseOptions = defaultParseOptions sample_ext @ [WithTimeFunc sample_clock]\<rparr>"

definition sample_token :: "(string \<rightharpoonup> any) \<Rightarrow> unit Token" where
  "sample_token header =
     \<lparr>Raw = [], Method = [], Header = header, Claims = sample_claims None None,
      Signature = [], Valid = False\<rparr>"

section \<open>Auxiliary facts\<close>

subsection \<open>Splitting\<close>

lemma Index_None_iff: "Index s sep = None \<longleftrightarrow> \<not> sublist sep s"
  by (induction s) (auto simp: sublist_Cons_right)

lemma Split_without_sep: "sep \<noteq> [] \<Longrightarrow> \<not> sublist sep s \<Longrightarrow> Split s sep = [s]"
  using Index_None_iff [of s sep] by (subst Split.simps) simp

lemma Split_prefix_sep:
  assumes "sep \<noteq> []" "\<not> sublist sep t"
  shows "Split (sep @ t) sep = [[], t]"
proof -
  have "Index (sep @ t) sep = Some 0"
    using assms(1) by (cases sep) auto
  then have "Split (sep @ t) sep = [] # Split t sep"
    using assms(1) by (subst Split.simps) simp
  with assms show ?thesis by (simp add: Split_without_sep)
qed

lemma Split_three:
  assumes "CHR ''.'' \<notin> set a" "CHR ''.'' \<notin> set b" "CHR ''.'' \<notin> set c"
  shows "Split (a @ ''.'' @ b @ ''.'' @ c) ''.'' = [a, b, c]"
proof -
  have idx: "CHR ''.'' \<notin> set x \<Longrightarrow> Index (x @ ''.'' @ y) ''.'' = Some (length x)" for x y
    by (induction x) auto
  have none: "CHR ''.'' \<notin> set x \<Longrightarrow> Index x ''.'' = None" for x
    by (induction x) auto
  have step: "CHR ''.'' \<notin> set x \<Longrightarrow> Split (x @ ''.'' @ y) ''.'' = x # Split y ''.''" for x y
    using idx [of x y] by (subst Split.simps) simp
  have last: "CHR ''.'' \<notin> set x \<Longrightarrow> Split x ''.'' = [x]" for x
    using none [of x] by (subst Split.simps) simp
  have "Split (a @ ''.'' @ b @ ''.'' @ c) ''.'' = a # Split (b @ ''.'' @ c) ''.''"
    using assms(1) by (rule step)
  also have "Split (b @ ''.'' @ c) ''.'' = b # Split c ''.''"
    using assms(2) by (rule step)
  also have "Split c ''.'' = [c]"
    using assms(3) by (rule last)
  finally show ?thesis .
qed

subsection \<open>Header lookup\<close>

lemma Get_Authorization: "Get h ''Authorization'' = (case h ''Authorization'' of None \<Rightarrow> [] | Some [] \<Rightarrow> [] | Some (v # _) \<Rightarrow> v)"
  by (simp add: Get_def CanonicalMIMEHeaderKey_def validHeaderFieldByte_def lowerLetters_def upperLetters_def toUpper_def toLower_def Let_def)

lemma Get_X_OpsMx_Auth: "Get h ''X-OpsMx-Auth'' = (case h ''X-Opsmx-Auth'' of None \<Rightarrow> [] | Some [] \<Rightarrow> [] | Some (v # _) \<Rightarrow> v)"
  by (simp add: Get_def CanonicalMIMEHeaderKey_def validHeaderFieldByte_def lowerLetters_def upperLetters_def toUpper_def toLower_def Let_def)

subsection \<open>The loop of \<open>parseKeys\<close>\<close>

lemma parseKeys_loop_all_parse:
  assumes "distinct (map fst pemkeys)"
    and "\<forall>(name, pem) \<in> set pemkeys. \<exists>k. ParseRSAPublicKeyFromPEM ext pem = Inr k"
  shows "\<exists>m. parseKeys_loop ext keys pemkeys = Inr m
           \<and> (\<forall>name pem k. (name, pem) \<in> set pemkeys \<longrightarrow> ParseRSAPublicKeyFromPEM ext pem = Inr k \<longrightarrow> m name = Some k)
           \<and> (\<forall>name. name \<notin> fst ` set pemkeys \<longrightarrow> m name = keys name)"
  using assms
proof (induction pemkeys arbitrary: keys)
  case Nil
  then show ?case by simp
next
  case (Cons entry rest)
  obtain name pem where entry: "entry = (name, pem)" by (cases entry)
  from Cons.prems(2) entry obtain rk where rk: "ParseRSAPublicKeyFromPEM ext pem = Inr rk"
    by auto
  from Cons.prems entry have fresh: "name \<notin> fst ` set rest" and d: "distinct (map fst rest)"
    and p: "\<forall>(name, pem) \<in> set rest. \<exists>k. ParseRSAPublicKeyFromPEM ext pem = Inr k"
    by auto
  from Cons.IH [OF d p, of "keys(name \<mapsto> rk)"] obtain m where
    m: "parseKeys_loop ext (keys(name \<mapsto> rk)) rest = Inr m"
    and inside: "\<forall>n p k. (n, p) \<in> set rest \<longrightarrow> ParseRSAPublicKeyFromPEM ext p = Inr k \<longrightarrow> m n = Some k"
    and outside: "\<forall>n. n \<notin> fst ` set rest \<longrightarrow> m n = (keys(name \<mapsto> rk)) n"
    by blast
  have "parseKeys_loop ext keys (entry # rest) = Inr m"
    using entry rk m by simp
  moreover have "m name = Some rk"
    using outside fresh by simp
  moreover have "\<forall>n. n \<notin> fst ` set (entry # rest) \<longrightarrow> m n = keys n"
    using outside entry by auto
  ultimately show ?case
    using inside entry rk by auto
qed

lemma parseKeys_loop_malformed:
  assumes "(name, pem) \<in> set pemkeys" and "ParseRSAPublicKeyFromPEM ext pem = Inl err"
  shows "\<exists>n p e. (n, p) \<in> set pemkeys \<and> ParseRSAPublicKeyFromPEM ext p = Inl e
           \<and> parseKeys_loop ext keys pemkeys
               = Inl (Err (''unable to parse pem for keyID '' @ n @ '': '' @ Error e))"
  using assms
proof (induction pemkeys arbitrary: keys)
  case Nil
  then show ?case by simp
next
  case (Cons entry rest)
  obtain n p where entry: "entry = (n, p)" by (cases entry)
  show ?case
  proof (cases "ParseRSAPublicKeyFromPEM ext p")
    case (Inl e)
    with entry show ?thesis by auto
  next
    case (Inr rk)
    with Cons.prems entry have "(name, pem) \<in> set rest" by auto
    from Cons.IH [OF this Cons.prems(2), of "keys(n \<mapsto> rk)"] obtain n' p' e where
      found: "(n', p') \<in> set rest" "ParseRSAPublicKeyFromPEM ext p' = Inl e"
        "parseKeys_loop ext (keys(n \<mapsto> rk)) rest
           = Inl (Err (''unable to parse pem for keyID '' @ n' @ '': '' @ Error e))"
      by blast
    have "parseKeys_loop ext keys (entry # rest) = parseKeys_loop ext (keys(n \<mapsto> rk)) rest"
      using entry Inr by simp
    with found have "(n', p') \<in> set (entry # rest) \<and> ParseRSAPublicKeyFromPEM ext p' = Inl e
        \<and> parseKeys_loop ext keys (entry # rest)
           = Inl (Err (''unable to parse pem for keyID '' @ n' @ '': '' @ Error e))"
      by simp
    then show ?thesis by blast
  qed
qed

subsection \<open>The policy of a new verifier\<close>

lemma NewVerifier_policy:
  assumes "NewVerifier ext pemkeys tf = Inr v"
  shows "NewParser (parseOptions v) = policyParser ext tf"
proof -
  from assms have "parseOptions v =
      defaultParseOptions ext @ (case tf of None \<Rightarrow> [] | Some f \<Rightarrow> [WithTimeFunc f])"
    by (auto simp: NewVerifier_def Let_def split: sum.splits option.splits)
  then show ?thesis
    by (cases tf)
      (simp_all add: NewParser_def defaultParseOptions_def zeroParser_def policyParser_def
        WithLeeway_def WithAudience_def WithExpirationRequired_def WithIssuedAt_def
        WithIssuer_def WithValidMethods_def WithTimeFunc_def SigningMethodPS256_Name_def)
qed

lemma collect_empty: "collect rs = [] \<longleftrightarrow> (\<forall>r \<in> set rs. r = None)"
  by (induction rs) (auto simp: collect_def split: option.splits)

lemma collect_member: "Some e \<in> set rs \<Longrightarrow> e \<in> set (collect rs)"
  by (induction rs) (auto simp: collect_def split: option.splits)

lemma verifyAudience_required:
  "cmp \<noteq> [] \<Longrightarrow> verifyAudience c cmp True = None \<longleftrightarrow> cmp \<in> set (Audience c)"
  by (auto simp: verifyAudience_def Let_def errorIfRequired_def errorIfFalse_def list_ex_iff)

lemma verifyIssuer_required:
  "cmp \<noteq> [] \<Longrightarrow> verifyIssuer c cmp True = None \<longleftrightarrow> Issuer c = cmp"
  by (auto simp: verifyIssuer_def Let_def errorIfRequired_def errorIfFalse_def)

lemma verifyExpiresAt_policy:
  "verifyExpiresAt (validator (policyParser ext tf)) c now True = None \<longleftrightarrow> expirationOk now c"
  by (auto simp: verifyExpiresAt_def policyParser_def expirationOk_def errorIfRequired_def
      errorIfFalse_def Before_def Add_def split: option.splits)

lemma verifyNotBefore_policy:
  "verifyNotBefore (validator (policyParser ext tf)) c now False = None \<longleftrightarrow> notBeforeOk now c"
  by (auto simp: verifyNotBefore_def policyParser_def notBeforeOk_def errorIfRequired_def
      errorIfFalse_def Before_def Add_def split: option.splits)

lemma verifyIssuedAt_policy:
  "verifyIssuedAt (validator (policyParser ext tf)) c now False = None \<longleftrightarrow> issuedAtOk now c"
  by (auto simp: verifyIssuedAt_def policyParser_def issuedAtOk_def errorIfRequired_def
      errorIfFalse_def Before_def Add_def split: option.splits)

lemma Validate_policy:
  "Validate ext (validator (policyParser ext tf)) c = None \<longleftrightarrow>
     expirationOk (policyNow ext tf) c \<and> notBeforeOk (policyNow ext tf) c
     \<and> issuedAtOk (policyNow ext tf) c \<and> audienceOk ext c \<and> issuerOk ext c
     \<and> ClaimsValidate ext c = None"
proof -
  let ?v = "validator (policyParser ext tf)"
  have fields: "timeFunc ?v = tf" "requireExp ?v = True" "verifyIat ?v = True"
    "expectedAud ?v = ssdTokenAudience ext" "expectedIss ?v = ssdTokenIssuer ext"
    "expectedSub ?v = []"
    by (simp_all add: policyParser_def)
  have now: "(case tf of Some f \<Rightarrow> f () | None \<Rightarrow> Now ext ()) = policyNow ext tf"
    by (simp add: policyNow_def)
  have aud: "(if ssdTokenAudience ext \<noteq> [] then verifyAudience c (ssdTokenAudience ext) True else None) = None
      \<longleftrightarrow> audienceOk ext c"
    by (simp add: audienceOk_def verifyAudience_required)
  have iss: "(if ssdTokenIssuer ext \<noteq> [] then verifyIssuer c (ssdTokenIssuer ext) True else None) = None
      \<longleftrightarrow> issuerOk ext c"
    by (simp add: issuerOk_def verifyIssuer_required)
  have "Validate ext ?v c = None \<longleftrightarrow>
      verifyExpiresAt ?v c (policyNow ext tf) True = None
      \<and> verifyNotBefore ?v c (policyNow ext tf) False = None
      \<and> verifyIssuedAt ?v c (policyNow ext tf) False = None
      \<and> (if ssdTokenAudience ext \<noteq> [] then verifyAudience c (ssdTokenAudience ext) True else None) = None
      \<and> (if ssdTokenIssuer ext \<noteq> [] then verifyIssuer c (ssdTokenIssuer ext) True else None) = None
      \<and> ClaimsValidate ext c = None"
    unfolding Validate_def Let_def fields now
    by (simp add: collect_empty del: if_not_P)
  then show ?thesis
    unfolding aud iss verifyExpiresAt_policy verifyNotBefore_policy verifyIssuedAt_policy .
qed

subsection \<open>When \<open>VerifyToken\<close> accepts\<close>

lemma ParseUnverified_Inr:
  assumes "ParseUnverified ext s = Inr (token, parts)"
  shows "declaredHeader ext s = Some (Header token)"
    and "Header token ''alg'' = Some (AnyString (Method token))"
    and "parts = Split s ''.''"
  using assms
  by (auto simp: ParseUnverified_def declaredHeader_def Let_def GetSigningMethod_def
      split: if_splits sum.splits option.splits any.splits)

lemma ParseUnverified_Inl:
  assumes "ParseUnverified ext s = Inl e"
  shows "\<exists>e'. ParseWithClaims ext p s keyFunc = Inl e'"
  using assms by (simp add: ParseWithClaims_def)

lemma declaresPS256_Method:
  assumes "ParseUnverified ext s = Inr (token, parts)"
  shows "declaresPS256 ext s \<longleftrightarrow> Method token = ''PS256''"
  using ParseUnverified_Inr(1,2) [OF assms] by (auto simp: declaresPS256_def)

lemma ParseWithClaims_policy:
  assumes "ParseUnverified ext s = Inr (token, parts)"
  shows "ParseWithClaims ext (policyParser ext tf) s (KeyFunc v) =
     (if Method token \<noteq> ''PS256''
      then Inl (newError (''signing method '' @ Method token @ '' is invalid'') ErrTokenSignatureInvalid [])
      else case DecodeSegment ext (parts ! 2) of
        Inl err \<Rightarrow> Inl (newError ''could not base64 decode signature'' ErrTokenMalformed [err])
      | Inr sig \<Rightarrow>
      (case KeyFunc v (token\<lparr>Signature := sig\<rparr>) of
        Inl err \<Rightarrow> Inl (newError ''error while executing keyfunc'' ErrTokenUnverifiable [err])
      | Inr key \<Rightarrow>
      (case Verify ext (Method token) (parts ! 0 @ ''.'' @ parts ! 1) sig key of
        Some err \<Rightarrow> Inl (newError [] ErrTokenSignatureInvalid [err])
      | None \<Rightarrow>
      (case Validate ext (validator (policyParser ext tf)) (Claims token) of
        Some err \<Rightarrow> Inl (newError [] ErrTokenInvalidClaims [err])
      | None \<Rightarrow> Inr (token\<lparr>Signature := sig, Valid := True\<rparr>)))))"
proof -
  have p: "validMethods (policyParser ext tf) = Some [''PS256'']"
    "skipClaimsValidation (policyParser ext tf) = False"
    by (simp_all add: policyParser_def)
  show ?thesis
    unfolding ParseWithClaims_def assms p Let_def
    by (auto split: sum.splits option.splits)
qed

lemma VerifyToken_accepts_iff:
  assumes "NewParser (parseOptions v) = policyParser ext tf"
  shows "VerifyToken ext v s = Inr c \<longleftrightarrow>
     declaresPS256 ext s \<and> signatureVerifies ext v s \<and> claimsOf ext s = Some c
     \<and> Validate ext (validator (policyParser ext tf)) c = None"
proof (cases "ParseUnverified ext s")
  case (Inl e)
  then show ?thesis
    using ParseUnverified_Inl [OF Inl, of "policyParser ext tf" "KeyFunc v"]
    by (auto simp: VerifyToken_def assms claimsOf_def)
next
  case (Inr tp)
  obtain token parts where tp: "tp = (token, parts)" by (cases tp)
  with Inr have pu: "ParseUnverified ext s = Inr (token, parts)" by simp
  show ?thesis
    unfolding VerifyToken_def assms ParseWithClaims_policy [OF pu]
      declaresPS256_Method [OF pu] signatureVerifies_def claimsOf_def pu
    by (auto split: sum.splits option.splits)
qed

lemma VerifyToken_claims_error:
  assumes "NewParser (parseOptions v) = policyParser ext tf"
    and "declaresPS256 ext s" and "signatureVerifies ext v s" and "claimsOf ext s = Some c"
    and "Validate ext (validator (policyParser ext tf)) c = Some err"
  shows "VerifyToken ext v s = Inl (newError [] ErrTokenInvalidClaims [err])"
proof (cases "ParseUnverified ext s")
  case (Inl e)
  with assms(4) show ?thesis by (simp add: claimsOf_def)
next
  case (Inr tp)
  obtain token parts where tp: "tp = (token, parts)" by (cases tp)
  with Inr have pu: "ParseUnverified ext s = Inr (token, parts)" by simp
  show ?thesis
    using assms(2-5)
    unfolding VerifyToken_def assms(1) ParseWithClaims_policy [OF pu]
      declaresPS256_Method [OF pu] signatureVerifies_def claimsOf_def pu
    by (auto split: sum.splits option.splits)
qed

lemma VerifyToken_total: "(\<exists>e. VerifyToken ext v s = Inl e) \<or> (\<exists>c. VerifyToken ext v s = Inr c)"
  by (cases "VerifyToken ext v s") auto

lemma Is_refl: "Is e e"
  by (cases e) auto

lemma Is_WrapI: "e \<in> set es \<Longrightarrow> Is e target \<Longrightarrow> Is (Wrap m es) target"
  by (auto simp: list_ex_iff)

lemma Is_claims_error:
  assumes "e \<in> set errs"
  shows "Is (newError [] ErrTokenInvalidClaims [joinErrors errs]) e"
    and "Is (newError [] ErrTokenInvalidClaims [joinErrors errs]) ErrTokenInvalidClaims"
proof -
  have "Is (joinErrors errs) e"
    unfolding joinErrors_def using assms Is_refl by (rule Is_WrapI)
  then show "Is (newError [] ErrTokenInvalidClaims [joinErrors errs]) e"
    unfolding newError_def by (rule Is_WrapI [rotated]) simp
  show "Is (newError [] ErrTokenInvalidClaims [joinErrors errs]) ErrTokenInvalidClaims"
    unfolding newError_def by (rule Is_WrapI [OF _ Is_refl]) simp
qed

lemma Validate_Some:
  assumes "Some e \<in> set
            [verifyExpiresAt v c now (requireExp v),
             verifyNotBefore v c now False,
             if verifyIat v then verifyIssuedAt v c now False else None,
             if expectedAud v \<noteq> [] then verifyAudience c (expectedAud v) True else None,
             if expectedIss v \<noteq> [] then verifyIssuer c (expectedIss v) True else None,
             if expectedSub v \<noteq> [] then verifySubject c (expectedSub v) True else None,
             ClaimsValidate ext c]"
    and "now = (case timeFunc v of Some f \<Rightarrow> f () | None \<Rightarrow> Now ext ())"
  shows "\<exists>errs. Validate ext v c = Some (joinErrors errs) \<and> e \<in> set errs"
proof -
  let ?rs = "[verifyExpiresAt v c now (requireExp v),
             verifyNotBefore v c now False,
             if verifyIat v then verifyIssuedAt v c now False else None,
             if expectedAud v \<noteq> [] then verifyAudience c (expectedAud v) True else None,
             if expectedIss v \<noteq> [] then verifyIssuer c (expectedIss v) True else None,
             if expectedSub v \<noteq> [] then verifySubject c (expectedSub v) True else None,
             ClaimsValidate ext c]"
  from collect_member [OF assms(1)] have mem: "e \<in> set (collect ?rs)" .
  then have "collect ?rs \<noteq> []" by auto
  then have "Validate ext v c = Some (joinErrors (collect ?rs))"
    unfolding Validate_def Let_def assms(2) [symmetric] by simp
  with mem show ?thesis by blast
qed

lemma Validate_expired:
  assumes "ExpiresAt c = Some exp" and "\<not> policyNow ext tf < exp + 5 * Minute"
  shows "\<exists>errs. Validate ext (validator (policyParser ext tf)) c = Some (joinErrors errs)
           \<and> ErrTokenExpired \<in> set errs"
proof (rule Validate_Some)
  show "policyNow ext tf =
      (case timeFunc (validator (policyParser ext tf)) of Some f \<Rightarrow> f () | None \<Rightarrow> Now ext ())"
    by (simp add: policyNow_def policyParser_def)
  have "verifyExpiresAt (validator (policyParser ext tf)) c (policyNow ext tf)
          (requireExp (validator (policyParser ext tf))) = Some ErrTokenExpired"
    using assms
    by (simp add: verifyExpiresAt_def errorIfFalse_def Before_def Add_def policyParser_def)
  then show "Some ErrTokenExpired \<in> set
            [verifyExpiresAt (validator (policyParser ext tf)) c (policyNow ext tf) (requireExp (validator (policyParser ext tf))),
             verifyNotBefore (validator (policyParser ext tf)) c (policyNow ext tf) False,
             if verifyIat (validator (policyParser ext tf)) then verifyIssuedAt (validator (policyParser ext tf)) c (policyNow ext tf) False else None,
             if expectedAud (validator (policyParser ext tf)) \<noteq> [] then verifyAudience c (expectedAud (validator (policyParser ext tf))) True else None,
             if expectedIss (validator (policyParser ext tf)) \<noteq> [] then verifyIssuer c (expectedIss (validator (policyParser ext tf))) True else None,
             if expectedSub (validator (policyParser ext tf)) \<noteq> [] then verifySubject c (expectedSub (validator (policyParser ext tf))) True else None,
             ClaimsValidate ext c]"
    by simp
qed

lemma Validate_used_before_issued:
  assumes "IssuedAt c = Some iat" and "policyNow ext tf < iat - 5 * Minute"
  shows "\<exists>errs. Validate ext (validator (policyParser ext tf)) c = Some (joinErrors errs)
           \<and> ErrTokenUsedBeforeIssued \<in> set errs"
proof (rule Validate_Some)
  show "policyNow ext tf =
      (case timeFunc (validator (policyParser ext tf)) of Some f \<Rightarrow> f () | None \<Rightarrow> Now ext ())"
    by (simp add: policyNow_def policyParser_def)
  have "verifyIssuedAt (validator (policyParser ext tf)) c (policyNow ext tf) False
          = Some ErrTokenUsedBeforeIssued"
    using assms
    by (simp add: verifyIssuedAt_def errorIfFalse_def Before_def Add_def policyParser_def)
  moreover have "verifyIat (validator (policyParser ext tf))"
    by (simp add: policyParser_def)
  ultimately show "Some ErrTokenUsedBeforeIssued \<in> set
            [verifyExpiresAt (validator (policyParser ext tf)) c (policyNow ext tf) (requireExp (validator (policyParser ext tf))),
             verifyNotBefore (validator (policyParser ext tf)) c (policyNow ext tf) False,
             if verifyIat (validator (policyParser ext tf)) then verifyIssuedAt (validator (policyParser ext tf)) c (policyNow ext tf) False else None,
             if expectedAud (validator (policyParser ext tf)) \<noteq> [] then verifyAudience c (expectedAud (validator (policyParser ext tf))) True else None,
             if expectedIss (validator (policyParser ext tf)) \<noteq> [] then verifyIssuer c (expectedIss (validator (policyParser ext tf))) True else None,
             if expectedSub (validator (policyParser ext tf)) \<noteq> [] then verifySubject c (expectedSub (validator (policyParser ext tf))) True else None,
             ClaimsValidate ext c]"
    by simp
qed

lemma VerifyToken_empty: "\<exists>err. VerifyToken ext v [] = Inl err \<and> Is err ErrTokenMalformed"
proof -
  have "Split [] ''.'' = [[]]"
    by (subst Split.simps) simp
  then have "ParseUnverified ext [] =
      Inl (newError ''token contains an invalid number of segments'' ErrTokenMalformed [])"
    by (simp add: ParseUnverified_def)
  then have "VerifyToken ext v [] =
      Inl (newError ''token contains an invalid number of segments'' ErrTokenMalformed [])"
    by (simp add: VerifyToken_def ParseWithClaims_def)
  moreover have "Is (newError ''token contains an invalid number of segments'' ErrTokenMalformed []) ErrTokenMalformed"
    unfolding newError_def by (rule Is_WrapI [OF _ Is_refl]) simp
  ultimately show ?thesis by simp
qed

subsection \<open>The sample data\<close>

lemma sample_NewVerifier:
  "NewVerifier sample_ext validPEMKeys (Some sample_clock) = Inr sample_verifier"
  by (simp add: NewVerifier_def parseKeys_def sample_ext_def validPEMKeys_def sample_verifier_def Let_def)

lemma sample_ParseUnverified:
  assumes "UnmarshalHeader sample_ext h = Inr (sample_header alg)"
    and "alg \<in> set signingMethods"
    and "UnmarshalClaims sample_ext p = Inr c"
    and "CHR ''.'' \<notin> set h" "CHR ''.'' \<notin> set p" "CHR ''.'' \<notin> set g"
  shows "ParseUnverified sample_ext (h @ ''.'' @ p @ ''.'' @ g) =
     Inr (\<lparr>Raw = h @ ''.'' @ p @ ''.'' @ g, Method = alg, Header = sample_header alg, Claims = c,
           Signature = [], Valid = False\<rparr>, [h, p, g])"
proof -
  have d: "DecodeSegment sample_ext = Inr" by (simp add: sample_ext_def)
  have a: "sample_header alg ''alg'' = Some (AnyString alg)" by (simp add: sample_header_def)
  show ?thesis
    unfolding ParseUnverified_def Split_three [OF assms(4-6)] Let_def d
    using assms(1-3) a by (simp add: GetSigningMethod_def)
qed

lemma sample_policy: "NewParser (parseOptions sample_verifier) = policyParser sample_ext (Some sample_clock)"
  using sample_NewVerifier by (rule NewVerifier_policy)

lemma sample_now: "policyNow sample_ext (Some sample_clock) = sample_clock ()"
  by (simp add: policyNow_def)

lemma sample_valid_up_to_claims:
  assumes "UnmarshalClaims sample_ext p = Inr c" and "CHR ''.'' \<notin> set p"
  shows "declaresPS256 sample_ext (''PS256 key1'' @ ''.'' @ p @ ''.'' @ ''valid signature'')"
    and "signatureVerifies sample_ext sample_verifier (''PS256 key1'' @ ''.'' @ p @ ''.'' @ ''valid signature'')"
    and "claimsOf sample_ext (''PS256 key1'' @ ''.'' @ p @ ''.'' @ ''valid signature'') = Some c"
proof -
  have h: "UnmarshalHeader sample_ext ''PS256 key1'' = Inr (sample_header ''PS256'')"
    by (simp add: sample_ext_def)
  have m: "''PS256'' \<in> set signingMethods" by (simp add: signingMethods_def)
  have pu: "ParseUnverified sample_ext (''PS256 key1'' @ ''.'' @ p @ ''.'' @ ''valid signature'') =
     Inr (\<lparr>Raw = ''PS256 key1'' @ ''.'' @ p @ ''.'' @ ''valid signature'', Method = ''PS256'',
           Header = sample_header ''PS256'', Claims = c, Signature = [], Valid = False\<rparr>,
          [''PS256 key1'', p, ''valid signature''])"
    by (rule sample_ParseUnverified [OF h m assms(1) _ assms(2)]) simp_all
  show "declaresPS256 sample_ext (''PS256 key1'' @ ''.'' @ p @ ''.'' @ ''valid signature'')"
    unfolding declaresPS256_Method [OF pu] by simp
  show "claimsOf sample_ext (''PS256 key1'' @ ''.'' @ p @ ''.'' @ ''valid signature'') = Some c"
    unfolding claimsOf_def pu by simp
  show "signatureVerifies sample_ext sample_verifier (''PS256 key1'' @ ''.'' @ p @ ''.'' @ ''valid signature'')"
    unfolding signatureVerifies_def pu
    by (simp add: sample_ext_def KeyFunc_def sample_header_def sample_verifier_def)
qed

lemma sample_claims_ok:
  "notBeforeOk now (sample_claims exp iat)" "audienceOk sample_ext (sample_claims exp iat)"
  "issuerOk sample_ext (sample_claims exp iat)" "ClaimsValidate sample_ext (sample_claims exp iat) = None"
  by (simp_all add: notBeforeOk_def audienceOk_def issuerOk_def sample_claims_def sample_ext_def)

section \<open>Properties of the verifier\<close>

subsection \<open>Algorithm policy\<close>

text \<open>
  Claim C1. A verifier built by \<open>NewVerifier\<close>, whatever keys it holds afterwards,
  rejects every token whose header declares a signing algorithm other than \<open>PS256\<close>
  (another registered method, \<open>none\<close>, a symmetric method, an unknown name, a value
  that is not a string, or no \<open>alg\<close> at all). The signature check is a parameter of
  the statement, so the token is rejected also when its signature is valid under the
  algorithm it declares.
\<close>

theorem VerifyToken_rejects_other_algorithms:
  assumes "NewVerifier ext pemkeys tf = Inr v"
    and "declaredHeader ext tokenString = Some header"
    and "header ''alg'' \<noteq> Some (AnyString ''PS256'')"
  shows "\<exists>err. VerifyToken ext (v\<lparr>Keys := keys\<rparr>) tokenString = Inl err"
proof -
  have "NewParser (parseOptions (v\<lparr>Keys := keys\<rparr>)) = policyParser ext tf"
    using NewVerifier_policy [OF assms(1)] by simp
  from VerifyToken_accepts_iff [OF this] assms(2,3)
  have "VerifyToken ext (v\<lparr>Keys := keys\<rparr>) tokenString \<noteq> Inr c" for c
    by (simp add: declaresPS256_def)
  with VerifyToken_total [of ext "v\<lparr>Keys := keys\<rparr>" tokenString] show ?thesis by blast
qed

text \<open>
  A token that declares \<open>HS256\<close>, with a signature that the check accepts, is rejected.
\<close>

theorem VerifyToken_rejects_other_algorithms_witness:
  "(\<exists>err. VerifyToken sample_ext (sample_verifier\<lparr>Keys := [''key1'' \<mapsto> 1]\<rparr>)
            ''HS256 key1.no iat.valid signature'' = Inl err)
   \<and> Verify sample_ext ''HS256'' ''HS256 key1.no iat'' ''valid signature'' 1 = None"
proof -
  have sp: "Split ''HS256 key1.no iat.valid signature'' ''.''
      = [''HS256 key1'', ''no iat'', ''valid signature'']"
    using Split_three [of "''HS256 key1''" "''no iat''" "''valid signature''"] by simp
  have h: "declaredHeader sample_ext ''HS256 key1.no iat.valid signature'' = Some (sample_header ''HS256'')"
    unfolding declaredHeader_def sp Let_def by (simp add: sample_ext_def)
  have a: "sample_header ''HS256'' ''alg'' \<noteq> Some (AnyString ''PS256'')"
    by (simp add: sample_header_def)
  from VerifyToken_rejects_other_algorithms [OF sample_NewVerifier h a, of "[''key1'' \<mapsto> 1]"]
  show ?thesis by (simp add: sample_ext_def)
qed

subsection \<open>Key store\<close>

text \<open>
  Claim C2. When every entry of the key mapping parses, \<open>NewVerifier\<close> succeeds, and
  the key function of the new verifier returns, for a token whose \<open>kid\<close> is a name of
  the mapping, the key parsed from that name's entry, and fails with the error
  \<^verbatim>\<open>no such key <kid>\<close> for a \<open>kid\<close> that is not a name of the mapping.
\<close>

theorem Lookup_after_NewVerifier:
  assumes "distinct (map fst pemkeys)"
    and "\<forall>(name, pem) \<in> set pemkeys. \<exists>k. ParseRSAPublicKeyFromPEM ext pem = Inr k"
  shows "\<exists>v. NewVerifier ext pemkeys tf = Inr v
           \<and> (\<forall>kid pem key token. (kid, pem) \<in> set pemkeys
                 \<longrightarrow> ParseRSAPublicKeyFromPEM ext pem = Inr key
                 \<longrightarrow> Header token ''kid'' = Some (AnyString kid)
                 \<longrightarrow> KeyFunc v token = Inr key)
           \<and> (\<forall>kid token. kid \<notin> fst ` set pemkeys
                 \<longrightarrow> Header token ''kid'' = Some (AnyString kid)
                 \<longrightarrow> KeyFunc v token = Inl (Err (''no such key '' @ kid)))"
proof -
  from parseKeys_loop_all_parse [OF assms, of Map.empty] obtain m where
    m: "parseKeys ext pemkeys = Inr m"
    and inside: "\<forall>n p k. (n, p) \<in> set pemkeys \<longrightarrow> ParseRSAPublicKeyFromPEM ext p = Inr k \<longrightarrow> m n = Some k"
    and outside: "\<forall>n. n \<notin> fst ` set pemkeys \<longrightarrow> m n = None"
    unfolding parseKeys_def by auto
  obtain opts where v: "NewVerifier ext pemkeys tf = Inr \<lparr>Keys = m, parseOptions = opts\<rparr>"
    using m by (simp add: NewVerifier_def Let_def)
  show ?thesis
    using v inside outside by (auto simp: KeyFunc_def)
qed

text \<open>The two keys of the test: \<open>key1\<close> is found, \<open>key99\<close> is not.\<close>

theorem Lookup_after_NewVerifier_witness:
  "\<exists>v. NewVerifier sample_ext validPEMKeys None = Inr v
     \<and> KeyFunc v (sample_token [''kid'' \<mapsto> AnyString ''key1'']) = Inr 1
     \<and> KeyFunc v (sample_token [''kid'' \<mapsto> AnyString ''key99'']) = Inl (Err ''no such key key99'')"
proof -
  have d: "distinct (map fst validPEMKeys)"
    by (simp add: validPEMKeys_def)
  have p: "\<forall>(name, pem) \<in> set validPEMKeys. \<exists>k. ParseRSAPublicKeyFromPEM sample_ext pem = Inr k"
    by (simp add: validPEMKeys_def sample_ext_def)
  from Lookup_after_NewVerifier [OF d p, of None] obtain v where
    v: "NewVerifier sample_ext validPEMKeys None = Inr v"
    and inside: "\<And>kid pem key (token :: unit Token). (kid, pem) \<in> set validPEMKeys
        \<Longrightarrow> ParseRSAPublicKeyFromPEM sample_ext pem = Inr key
        \<Longrightarrow> Header token ''kid'' = Some (AnyString kid) \<Longrightarrow> KeyFunc v token = Inr key"
    and outside: "\<And>kid (token :: unit Token). kid \<notin> fst ` set validPEMKeys
        \<Longrightarrow> Header token ''kid'' = Some (AnyString kid)
        \<Longrightarrow> KeyFunc v token = Inl (Err (''no such key '' @ kid))"
    by blast
  have "KeyFunc v (sample_token [''kid'' \<mapsto> AnyString ''key1'']) = Inr 1"
    by (rule inside [of "''key1''" "''PEM of key1''"])
      (simp_all add: validPEMKeys_def sample_ext_def sample_token_def)
  moreover have "KeyFunc v (sample_token [''kid'' \<mapsto> AnyString ''key99''])
      = Inl (Err (''no such key '' @ ''key99''))"
    by (rule outside) (simp_all add: validPEMKeys_def sample_token_def)
  ultimately show ?thesis using v by auto
qed

text \<open>
  Claim C3. When an entry of the key mapping does not parse, \<open>NewVerifier\<close> and
  \<open>SetKeys\<close> both fail with an error that names an entry that does not parse (the
  first one the loop meets), no verifier is built, and \<open>SetKeys\<close> leaves the verifier,
  and so its keys, as it was.
\<close>

theorem malformed_key_rejected:
  assumes "(name, pem) \<in> set pemkeys" and "ParseRSAPublicKeyFromPEM ext pem = Inl err"
  shows "\<exists>n p e. (n, p) \<in> set pemkeys \<and> ParseRSAPublicKeyFromPEM ext p = Inl e
           \<and> NewVerifier ext pemkeys tf
               = Inl (Err (''unable to parse pem for keyID '' @ n @ '': '' @ Error e))
           \<and> SetKeys ext v pemkeys
               = (v, Some (Err (''unable to parse pem for keyID '' @ n @ '': '' @ Error e)))"
proof -
  from parseKeys_loop_malformed [OF assms, of Map.empty] obtain n p e where
    "(n, p) \<in> set pemkeys" "ParseRSAPublicKeyFromPEM ext p = Inl e"
    "parseKeys ext pemkeys = Inl (Err (''unable to parse pem for keyID '' @ n @ '': '' @ Error e))"
    unfolding parseKeys_def by blast
  then show ?thesis
    by (auto simp: NewVerifier_def SetKeys_def)
qed

text \<open>The junk keys of the test.\<close>

theorem malformed_key_rejected_witness:
  "NewVerifier sample_ext junkKeys None
     = Inl (Err ''unable to parse pem for keyID badkey: invalid key: Key must be a PEM encoded PKCS1 or PKCS8 key'')
   \<and> SetKeys sample_ext sample_verifier junkKeys
     = (sample_verifier,
        Some (Err ''unable to parse pem for keyID badkey: invalid key: Key must be a PEM encoded PKCS1 or PKCS8 key''))"
proof -
  have m: "(''badkey'', ''foo'') \<in> set junkKeys"
    by (simp add: junkKeys_def)
  have e: "ParseRSAPublicKeyFromPEM sample_ext ''foo''
      = Inl (Err ''invalid key: Key must be a PEM encoded PKCS1 or PKCS8 key'')"
    by (simp add: sample_ext_def)
  from malformed_key_rejected [OF m e, of None sample_verifier] show ?thesis
    by (auto simp: junkKeys_def e)
qed

subsection \<open>Expiration and issued-at\<close>

text \<open>
  Claim C4. The leeway is five minutes and applies to the expiration check: a token
  that is valid apart from its expiration is accepted exactly when it carries an
  expiration time and "now" is before that time plus five minutes. In particular it is
  rejected as expired when it expired ten minutes before "now", and accepted when it
  expired three minutes before "now".
\<close>

theorem expiration_leeway_five_minutes:
  assumes "NewVerifier ext pemkeys tf = Inr v"
    and "validApartFromExpiration ext v (policyNow ext tf) tokenString c"
  shows "(VerifyToken ext v tokenString = Inr c
            \<longleftrightarrow> (\<exists>exp. ExpiresAt c = Some exp \<and> policyNow ext tf < exp + 5 * Minute))
       \<and> (ExpiresAt c = Some (policyNow ext tf - 10 * Minute)
            \<longrightarrow> (\<exists>err. VerifyToken ext v tokenString = Inl err \<and> Is err ErrTokenExpired))
       \<and> (ExpiresAt c = Some (policyNow ext tf - 3 * Minute)
            \<longrightarrow> VerifyToken ext v tokenString = Inr c)"
proof -
  note policy = NewVerifier_policy [OF assms(1)]
  from assms(2) have up: "declaresPS256 ext tokenString" "signatureVerifies ext v tokenString"
      "claimsOf ext tokenString = Some c"
    and rest: "notBeforeOk (policyNow ext tf) c" "issuedAtOk (policyNow ext tf) c"
      "audienceOk ext c" "issuerOk ext c" "ClaimsValidate ext c = None"
    by (simp_all add: validApartFromExpiration_def)
  have accepts: "VerifyToken ext v tokenString = Inr c \<longleftrightarrow> expirationOk (policyNow ext tf) c"
    using VerifyToken_accepts_iff [OF policy, of tokenString c] up rest
    by (simp add: Validate_policy)
  have iff: "VerifyToken ext v tokenString = Inr c
      \<longleftrightarrow> (\<exists>exp. ExpiresAt c = Some exp \<and> policyNow ext tf < exp + 5 * Minute)"
    unfolding accepts by (auto simp: expirationOk_def split: option.splits)
  have late: "\<exists>err. VerifyToken ext v tokenString = Inl err \<and> Is err ErrTokenExpired"
    if exp: "ExpiresAt c = Some (policyNow ext tf - 10 * Minute)"
  proof -
    have "\<not> policyNow ext tf < (policyNow ext tf - 10 * Minute) + 5 * Minute"
      by (simp add: Minute_def)
    from Validate_expired [OF exp this] obtain errs where
      v: "Validate ext (validator (policyParser ext tf)) c = Some (joinErrors errs)"
      and e: "ErrTokenExpired \<in> set errs" by blast
    from VerifyToken_claims_error [OF policy up v] Is_claims_error(1) [OF e]
    show ?thesis by simp
  qed
  have within: "VerifyToken ext v tokenString = Inr c"
    if exp: "ExpiresAt c = Some (policyNow ext tf - 3 * Minute)"
    unfolding iff using exp by (simp add: Minute_def)
  from iff late within show ?thesis by blast
qed

text \<open>The two tokens of the claim, at the sample clock.\<close>

theorem expiration_leeway_five_minutes_witness:
  "(\<exists>err. VerifyToken sample_ext sample_verifier ''PS256 key1.expired 10m.valid signature'' = Inl err
           \<and> Is err ErrTokenExpired)
   \<and> VerifyToken sample_ext sample_verifier ''PS256 key1.expired 3m.valid signature''
       = Inr (sample_claims (Some (sample_clock () - 3 * Minute)) (Some (sample_clock () - 60 * Minute)))"
proof -
  let ?c10 = "sample_claims (Some (sample_clock () - 10 * Minute)) (Some (sample_clock () - 60 * Minute))"
  let ?c3 = "sample_claims (Some (sample_clock () - 3 * Minute)) (Some (sample_clock () - 60 * Minute))"
  have iat: "issuedAtOk (sample_clock ()) (sample_claims exp (Some (sample_clock () - 60 * Minute)))" for exp
    by (simp add: issuedAtOk_def sample_claims_def Minute_def)
  have u10: "UnmarshalClaims sample_ext ''expired 10m'' = Inr ?c10"
    and u3: "UnmarshalClaims sample_ext ''expired 3m'' = Inr ?c3"
    by (simp_all add: sample_ext_def)
  have v10: "validApartFromExpiration sample_ext sample_verifier (policyNow sample_ext (Some sample_clock))
      ''PS256 key1.expired 10m.valid signature'' ?c10"
    unfolding validApartFromExpiration_def sample_now
    using sample_valid_up_to_claims [OF u10] sample_claims_ok iat by simp
  have v3: "validApartFromExpiration sample_ext sample_verifier (policyNow sample_ext (Some sample_clock))
      ''PS256 key1.expired 3m.valid signature'' ?c3"
    unfolding validApartFromExpiration_def sample_now
    using sample_valid_up_to_claims [OF u3] sample_claims_ok iat by simp
  from expiration_leeway_five_minutes [OF sample_NewVerifier v10]
    expiration_leeway_five_minutes [OF sample_NewVerifier v3]
  show ?thesis
    by (simp add: sample_now sample_claims_def)
qed

text \<open>
  Claim C5, as stated, says that a token without an issued-at claim is rejected. The
  policy asks for the check of issued-at (\<^verbatim>\<open>jwt.WithIssuedAt\<close>), which the validator runs
  with \<open>required = False\<close>; it does not ask for the claim to be present, as it does for
  the expiration (\<^verbatim>\<open>jwt.WithExpirationRequired\<close>). The sample token without \<open>iat\<close>,
  valid in every other respect, is accepted.
\<close>

theorem issued_at_required_counterexample:
  "NewVerifier sample_ext validPEMKeys (Some sample_clock) = Inr sample_verifier
   \<and> claimsOf sample_ext ''PS256 key1.no iat.valid signature''
       = Some (sample_claims (Some (sample_clock () + 60 * Minute)) None)
   \<and> IssuedAt (sample_claims (Some (sample_clock () + 60 * Minute)) None) = None
   \<and> VerifyToken sample_ext sample_verifier ''PS256 key1.no iat.valid signature''
       = Inr (sample_claims (Some (sample_clock () + 60 * Minute)) None)"
proof -
  let ?c = "sample_claims (Some (sample_clock () + 60 * Minute)) None"
  have u: "UnmarshalClaims sample_ext ''no iat'' = Inr ?c"
    by (simp add: sample_ext_def)
  note up = sample_valid_up_to_claims [OF u, simplified]
  have "Validate sample_ext (validator (policyParser sample_ext (Some sample_clock))) ?c = None"
    unfolding Validate_policy sample_now using sample_claims_ok
    by (simp add: expirationOk_def issuedAtOk_def sample_claims_def Minute_def)
  with VerifyToken_accepts_iff [OF sample_policy, of "''PS256 key1.no iat.valid signature''" ?c] up
  have "VerifyToken sample_ext sample_verifier ''PS256 key1.no iat.valid signature'' = Inr ?c"
    by simp
  with sample_NewVerifier up(3) show ?thesis
    by (simp add: sample_claims_def)
qed

text \<open>
  Claim C5, amended. A token that is valid apart from its issued-at claim is accepted
  when it has no issued-at claim, accepted when its issued-at time is at most five
  minutes after "now", and rejected with an invalid-claims error (used before issued)
  when its issued-at time is more than five minutes after "now".
\<close>

theorem issued_at_checked_when_present:
  assumes "NewVerifier ext pemkeys tf = Inr v"
    and "validApartFromIssuedAt ext v (policyNow ext tf) tokenString c"
  shows "(IssuedAt c = None \<longrightarrow> VerifyToken ext v tokenString = Inr c)
       \<and> (\<forall>iat. IssuedAt c = Some iat \<and> iat - 5 * Minute \<le> policyNow ext tf
                \<longrightarrow> VerifyToken ext v tokenString = Inr c)
       \<and> (\<forall>iat. IssuedAt c = Some iat \<and> policyNow ext tf < iat - 5 * Minute
                \<longrightarrow> (\<exists>err. VerifyToken ext v tokenString = Inl err
                           \<and> Is err ErrTokenInvalidClaims \<and> Is err ErrTokenUsedBeforeIssued))"
proof -
  note policy = NewVerifier_policy [OF assms(1)]
  from assms(2) have up: "declaresPS256 ext tokenString" "signatureVerifies ext v tokenString"
      "claimsOf ext tokenString = Some c"
    and rest: "expirationOk (policyNow ext tf) c" "notBeforeOk (policyNow ext tf) c"
      "audienceOk ext c" "issuerOk ext c" "ClaimsValidate ext c = None"
    by (simp_all add: validApartFromIssuedAt_def)
  have accepts: "VerifyToken ext v tokenString = Inr c \<longleftrightarrow> issuedAtOk (policyNow ext tf) c"
    using VerifyToken_accepts_iff [OF policy, of tokenString c] up rest
    by (simp add: Validate_policy)
  have early: "\<exists>err. VerifyToken ext v tokenString = Inl err
                 \<and> Is err ErrTokenInvalidClaims \<and> Is err ErrTokenUsedBeforeIssued"
    if iat: "IssuedAt c = Some iat" and future: "policyNow ext tf < iat - 5 * Minute" for iat
  proof -
    from Validate_used_before_issued [OF iat future] obtain errs where
      v: "Validate ext (validator (policyParser ext tf)) c = Some (joinErrors errs)"
      and e: "ErrTokenUsedBeforeIssued \<in> set errs" by blast
    from VerifyToken_claims_error [OF policy up v] Is_claims_error [OF e]
    show ?thesis by simp
  qed
  from accepts early show ?thesis
    by (auto simp: issuedAtOk_def)
qed

text \<open>A token issued ten minutes after the sample clock is rejected.\<close>

theorem issued_at_checked_when_present_witness:
  "\<exists>err. VerifyToken sample_ext sample_verifier ''PS256 key1.iat in 10m.valid signature'' = Inl err
           \<and> Is err ErrTokenInvalidClaims \<and> Is err ErrTokenUsedBeforeIssued"
proof -
  let ?c = "sample_claims (Some (sample_clock () + 60 * Minute)) (Some (sample_clock () + 10 * Minute))"
  have u: "UnmarshalClaims sample_ext ''iat in 10m'' = Inr ?c"
    by (simp add: sample_ext_def)
  have exp: "expirationOk (sample_clock ()) ?c"
    by (simp add: expirationOk_def sample_claims_def Minute_def)
  have v: "validApartFromIssuedAt sample_ext sample_verifier (policyNow sample_ext (Some sample_clock))
      ''PS256 key1.iat in 10m.valid signature'' ?c"
    unfolding validApartFromIssuedAt_def sample_now
    using sample_valid_up_to_claims [OF u] sample_claims_ok exp by simp
  from issued_at_checked_when_present [OF sample_NewVerifier v]
  show ?thesis
    by (simp add: sample_now sample_claims_def Minute_def)
qed

subsection \<open>Key identifier\<close>

text \<open>
  Claim C6. The key function fails with the error \<^verbatim>\<open>no `kid` in header\<close> when the
  header has no \<open>kid\<close>, and with the different error \<^verbatim>\<open>cannot convert `kid` to string\<close>
  when the \<open>kid\<close> is not a string. Both results are error values: the function
  returns and does not panic.
\<close>

theorem KeyFunc_kid_errors:
  "(Header token ''kid'' = None \<longrightarrow> KeyFunc v token = Inl (Err ''no `kid` in header''))
   \<and> (\<forall>x. Header token ''kid'' = Some x \<and> (\<forall>s. x \<noteq> AnyString s)
          \<longrightarrow> KeyFunc v token = Inl (Err ''cannot convert `kid` to string''))
   \<and> Err ''no `kid` in header'' \<noteq> Err ''cannot convert `kid` to string''"
  by (auto simp: KeyFunc_def split: any.splits)

text \<open>The tokens of the test: no header at all, and the \<open>kid\<close> 5.\<close>

theorem KeyFunc_kid_errors_witness:
  "KeyFunc sample_verifier (sample_token Map.empty) = Inl (Err ''no `kid` in header'')
   \<and> KeyFunc sample_verifier (sample_token [''kid'' \<mapsto> AnyInt 5])
       = Inl (Err ''cannot convert `kid` to string'')"
  using KeyFunc_kid_errors [of "sample_token Map.empty" sample_verifier]
    KeyFunc_kid_errors [of "sample_token [''kid'' \<mapsto> AnyInt 5]" sample_verifier]
  by (simp add: sample_token_def)

subsection \<open>Token extraction\<close>

text \<open>
  Claim C7, as stated, says that \<^verbatim>\<open>X-OpsMx-Auth\<close> is read only if \<^verbatim>\<open>Authorization\<close> is
  absent, and that the token is the substring after the \<^verbatim>\<open>Bearer \<close> prefix. The code
  compares the value of \<^verbatim>\<open>Authorization\<close> with the empty string, so a header that is
  present with an empty value also sends it to \<^verbatim>\<open>X-OpsMx-Auth\<close>; and it takes the
  second element of the split at \<^verbatim>\<open>"Bearer "\<close>, which ends at the next occurrence of
  the separator.
\<close>

theorem tokenFromHeaders_counterexample:
  "tokenFromHeaders
     \<lparr>ReqHeader = [''Authorization'' \<mapsto> [[]], ''X-Opsmx-Auth'' \<mapsto> [''Bearer abc'']],
      Ctx = Background :: unit Context\<rparr> = Inr ''abc''
   \<and> tokenFromHeaders
     \<lparr>ReqHeader = [''Authorization'' \<mapsto> [''Bearer a Bearer b'']],
      Ctx = Background :: unit Context\<rparr> = Inr ''a ''"
proof -
  have s1: "Split ''Bearer abc'' ''Bearer '' = [[], ''abc'']"
    by (simp add: Split.simps)
  have s2: "Split ''Bearer a Bearer b'' ''Bearer '' = [[], ''a '', ''b'']"
    by (simp add: Split.simps)
  show ?thesis
    by (simp add: tokenFromHeaders_def Get_Authorization Get_X_OpsMx_Auth s1 s2 index_slice_def)
qed

text \<open>
  Claim C7, amended. Token extraction reads the first value of \<^verbatim>\<open>Authorization\<close> and,
  if that is absent or empty (\<open>Get\<close> returns the empty string), the first value of
  \<^verbatim>\<open>X-OpsMx-Auth\<close>. If the value read is \<^verbatim>\<open>Bearer \<close> followed by a token that does not
  contain \<^verbatim>\<open>Bearer \<close> itself, the extracted token is that token. If both headers are
  absent or empty, the extracted token is the empty string, and the verification of the
  empty string fails, as a malformed token, in every verifier.
\<close>

theorem tokenFromHeaders_bearer:
  "(Get (ReqHeader r) ''Authorization'' = ''Bearer '' @ t \<and> \<not> sublist ''Bearer '' t
      \<longrightarrow> tokenFromHeaders r = Inr t)
   \<and> (Get (ReqHeader r) ''Authorization'' = [] \<and> Get (ReqHeader r) ''X-OpsMx-Auth'' = ''Bearer '' @ t
        \<and> \<not> sublist ''Bearer '' t
      \<longrightarrow> tokenFromHeaders r = Inr t)
   \<and> (Get (ReqHeader r) ''Authorization'' = [] \<and> Get (ReqHeader r) ''X-OpsMx-Auth'' = []
      \<longrightarrow> tokenFromHeaders r = Inr []
          \<and> (\<exists>err. VerifyToken ext v [] = Inl err \<and> Is err ErrTokenMalformed))"
proof -
  have split: "\<not> sublist ''Bearer '' t \<Longrightarrow> index_slice (Split (''Bearer '' @ t) ''Bearer '') 1 = Inr t"
    by (subst Split_prefix_sep) (simp_all add: index_slice_def)
  have primary: "tokenFromHeaders r = Inr t"
    if "Get (ReqHeader r) ''Authorization'' = ''Bearer '' @ t" "\<not> sublist ''Bearer '' t"
    using that split by (simp add: tokenFromHeaders_def Let_def)
  have fallback: "tokenFromHeaders r = Inr t"
    if "Get (ReqHeader r) ''Authorization'' = []"
      "Get (ReqHeader r) ''X-OpsMx-Auth'' = ''Bearer '' @ t" "\<not> sublist ''Bearer '' t"
    using that split by (simp add: tokenFromHeaders_def Let_def)
  have neither: "tokenFromHeaders r = Inr []"
    if "Get (ReqHeader r) ''Authorization'' = []" "Get (ReqHeader r) ''X-OpsMx-Auth'' = []"
    using that by (simp add: tokenFromHeaders_def Let_def)
  from primary fallback neither VerifyToken_empty [of ext v] show ?thesis by blast
qed

text \<open>A request with the fallback header only, and a request with no header.\<close>

theorem tokenFromHeaders_bearer_witness:
  "tokenFromHeaders \<lparr>ReqHeader = [''X-Opsmx-Auth'' \<mapsto> [''Bearer abc.def.ghi'']], Ctx = Background :: unit Context\<rparr>
     = Inr ''abc.def.ghi''
   \<and> tokenFromHeaders \<lparr>ReqHeader = Map.empty, Ctx = Background :: unit Context\<rparr> = Inr []
   \<and> (\<exists>err. VerifyToken sample_ext sample_verifier [] = Inl err \<and> Is err ErrTokenMalformed)"
  using tokenFromHeaders_bearer
    [of "\<lparr>ReqHeader = [''X-Opsmx-Auth'' \<mapsto> [''Bearer abc.def.ghi'']], Ctx = Background :: unit Context\<rparr>"
        "''abc.def.ghi''" sample_ext sample_verifier]
    tokenFromHeaders_bearer
    [of "\<lparr>ReqHeader = Map.empty, Ctx = Background :: unit Context\<rparr>" "[]" sample_ext sample_verifier]
  by (simp add: Get_Authorization Get_X_OpsMx_Auth sublist_code)

text \<open>
  Claim C10. When the value read (\<^verbatim>\<open>Authorization\<close> if it is not empty, otherwise
  \<^verbatim>\<open>X-OpsMx-Auth\<close>) is not empty and does not contain \<^verbatim>\<open>Bearer \<close>, the split has one
  element and the index expression panics: \<open>tokenFromHeaders\<close> returns no token.
\<close>

theorem tokenFromHeaders_out_of_range:
  assumes "(Get (ReqHeader r) ''Authorization'' \<noteq> [] \<and> auth = Get (ReqHeader r) ''Authorization'')
         \<or> (Get (ReqHeader r) ''Authorization'' = [] \<and> auth = Get (ReqHeader r) ''X-OpsMx-Auth'')"
    and "auth \<noteq> []" and "\<not> sublist ''Bearer '' auth"
  shows "tokenFromHeaders r = Inl (IndexOutOfRange 1 1)"
  using assms by (auto simp: tokenFromHeaders_def Let_def Split_without_sep index_slice_def)

text \<open>A request with basic authentication.\<close>

theorem tokenFromHeaders_out_of_range_witness:
  "tokenFromHeaders \<lparr>ReqHeader = [''Authorization'' \<mapsto> [''Basic dXNlcjpwdw=='']], Ctx = Background\<rparr>
     = Inl (IndexOutOfRange 1 1)"
  using tokenFromHeaders_out_of_range [of "\<lparr>ReqHeader = [''Authorization'' \<mapsto> [''Basic dXNlcjpwdw=='']], Ctx = Background\<rparr>" "''Basic dXNlcjpwdw==''"]
  by (simp add: Get_Authorization sublist_code)

subsection \<open>Middleware and context\<close>

text \<open>
  Claim C8. When the verification of the extracted token fails, the handler writes the
  status 401 and the body \<^verbatim>\<open>Unauthorized\<close> and returns. The result depends neither on
  the downstream handler \<open>next\<close>, which is not called, nor on the error: no request
  with another context is built, and the response is the same for every kind of failure.
\<close>

theorem middleware_rejects:
  assumes "tokenFromHeaders r = Inr tokenStr" and "VerifyToken ext v tokenStr = Inl err"
  shows "MiddlewareFunc ext v next w r = Inr (w @ [CallWriteHeader 401, CallWrite ''Unauthorized''])"
  using assms by (simp add: MiddlewareFunc_def WriteHeader_def Write_def StatusUnauthorized_def)

text \<open>
  A request without a token, in front of a handler that would write to the response.
\<close>

theorem middleware_rejects_witness:
  "MiddlewareFunc sample_ext sample_verifier (\<lambda>w r. Write w ''downstream'') []
     \<lparr>ReqHeader = Map.empty, Ctx = Background\<rparr>
   = Inr [CallWriteHeader 401, CallWrite ''Unauthorized'']"
proof -
  have t: "tokenFromHeaders \<lparr>ReqHeader = Map.empty, Ctx = Background :: unit Context\<rparr> = Inr []"
    by (simp add: tokenFromHeaders_def Get_Authorization Get_X_OpsMx_Auth)
  from VerifyToken_empty [of sample_ext sample_verifier] obtain err where
    e: "VerifyToken sample_ext sample_verifier [] = Inl err" by blast
  from middleware_rejects [OF t e, of "\<lambda>w r. Write w ''downstream''" "[]"] show ?thesis
    by simp
qed

text \<open>
  Claim C9. After \<open>contextWithToken ctx c t\<close> the claims accessor returns \<open>(c, True)\<close>
  and the token accessor returns \<open>(t, True)\<close>, for every context, claims pointer and
  token string. On a context that does not hold the key of an accessor, the accessor
  returns the zero value and \<open>False\<close>. Both accessors are total.
\<close>

theorem context_round_trip:
  "SSDClaimsFromContext (contextWithToken ctx c t) = (c, True)
   \<and> SSDTokenFromContext (contextWithToken ctx c t) = (t, True)
   \<and> (ssdContextKey \<notin> ctx_keys ctx \<longrightarrow> SSDClaimsFromContext ctx = (None, False))
   \<and> (ssdTokenContextKey \<notin> ctx_keys ctx \<longrightarrow> SSDTokenFromContext ctx = ([], False))"
proof -
  have absent: "key \<notin> ctx_keys ctx' \<Longrightarrow> Value ctx' key = None" for key and ctx' :: "'a Context"
    by (induction ctx') auto
  show ?thesis
    by (auto simp: SSDClaimsFromContext_def SSDTokenFromContext_def contextWithToken_def
        ssdContextKey_def ssdTokenContextKey_def Let_def absent)
qed

text \<open>A context that carries a value of some other package only.\<close>

theorem context_round_trip_witness:
  "SSDClaimsFromContext (WithValue Background (OtherKey 0) (StringValue ''trace-id'') :: unit Context)
     = (None, False)
   \<and> SSDTokenFromContext (WithValue Background (OtherKey 0) (StringValue ''trace-id'') :: unit Context)
     = ([], False)"
  using context_round_trip
    [of "WithValue Background (OtherKey 0) (StringValue ''trace-id'') :: unit Context"]
  by (simp add: ssdContextKey_def ssdTokenContextKey_def)

end
